theory Spec2Isabelle
  imports Main "HOL-Library.Word" "HOL-Library.Multiset"
begin

unbundle bit_operations_syntax

section \<open>tarmac: a content-addressed tar archive of a directory tree\<close>

text \<open>
  The program (\<^verbatim>\<open>tarmac.go\<close>) walks a directory tree and writes a tar stream in
  which every distinct file content is stored once, under
  \<^verbatim>\<open>root/.backing_store/<hash key>\<close>, and every file path is a hard-link record
  that points at the stored copy. This theory embeds \<^verbatim>\<open>addDir\<close>, \<^verbatim>\<open>addEntry\<close> and
  \<^verbatim>\<open>main\<close> and proves the properties of the deduplication that the specification
  states.
\<close>

subsection \<open>Data\<close>

text \<open>A Go \<^verbatim>\<open>byte\<close> is one \<open>char\<close>: both are eight bits, and the program only moves bytes.\<close>

type_synonym byte = char

text \<open>Go's \<^verbatim>\<open>error\<close> values: the model keeps the message.\<close>

datatype error = Error string

text \<open>\<^verbatim>\<open>os.FileInfo\<close>, as \<^verbatim>\<open>Readdir\<close> returns it; \<^verbatim>\<open>os.FileMode\<close> is a \<^verbatim>\<open>uint32\<close>.\<close>

record fileinfo =
  fi_Name :: string
  fi_Size :: int
  fi_Mode :: "32 word"
  fi_ModTime :: int

definition ModeDir :: "32 word" where
  "ModeDir = push_bit 31 1"

definition ModeSymlink :: "32 word" where
  "ModeSymlink = push_bit 27 1"

text \<open>The fields of \<^verbatim>\<open>tar.Header\<close>; \<^verbatim>\<open>Typeflag\<close> is a byte, \<^verbatim>\<open>tar.TypeLink\<close> is \<^verbatim>\<open>'1'\<close>.\<close>

record header =
  Typeflag :: byte
  Name :: string
  Linkname :: string
  Size :: int
  Mode :: int
  ModTime :: int

definition TypeLink :: byte where
  "TypeLink = CHR ''1''"

definition TypeDir :: byte where
  "TypeDir = CHR ''5''"

text \<open>
  What the program asks of \<^verbatim>\<open>ctx.archive\<close>: \<^verbatim>\<open>WriteHeader(header)\<close> and
  \<^verbatim>\<open>io.Copy(ctx.archive, f)\<close>. The archive is the sequence of these writes, in the order
  they reached the writer; \<open>Body\<close> carries the bytes that were copied.
\<close>

datatype tar_call = Hdr header | Body "byte list"

text \<open>
  The file system below the source directory. A node is one directory entry: its
  \<^verbatim>\<open>FileInfo\<close>, the outcome of each operation the program performs on it (an error, or
  none), the entries \<^verbatim>\<open>Readdir(0)\<close> lists and the bytes a read returns. The tree does
  not change during a run, and the path \<^verbatim>\<open>addDir\<close> builds for an entry opens that entry.
\<close>

record faults =
  open_err :: "error option"
  readdir_err :: "error option"
  read_err :: "error option"
  seek_err :: "error option"

datatype node = Node (info: fileinfo) (faults: faults) (entries: "node list") (content: "byte list")

text \<open>
  The library functions the program calls, whose code is not part of the repository, are
  parameters: the digest and its encoding, the two path joins, \<^verbatim>\<open>tar.FileInfoHeader\<close>,
  and when a write fails. \<open>header_fault\<close> says whether \<^verbatim>\<open>WriteHeader\<close> fails on a header,
  given what the archive holds; \<open>copy_fault\<close> says whether \<^verbatim>\<open>io.Copy(ctx.archive, f)\<close>
  fails (reading the file again, or writing), and how many bytes of the content reached
  the archive before it did.
\<close>

record stdlib =
  sha512_Sum :: "byte list \<Rightarrow> byte list"
  base64_URLEncode :: "byte list \<Rightarrow> string"
  path_Join :: "string list \<Rightarrow> string"
  filepath_Join :: "string list \<Rightarrow> string"
  FileInfoHeader :: "fileinfo \<Rightarrow> error + header"
  header_fault :: "tar_call list \<Rightarrow> header \<Rightarrow> error option"
  copy_fault :: "tar_call list \<Rightarrow> byte list \<Rightarrow> (error \<times> nat) option"

record creationContext =
  rootArchivePath :: string
  archive :: "tar_call list"
  mapping :: "string \<rightharpoonup> bool"

subsection \<open>The archive writer\<close>

definition WriteHeader :: "stdlib \<Rightarrow> creationContext \<Rightarrow> header \<Rightarrow> error option \<times> creationContext" where
  "WriteHeader lib ctx h =
     (case header_fault lib (archive ctx) h of
        Some e \<Rightarrow> (Some e, ctx)
      | None \<Rightarrow> (None, ctx\<lparr>archive := archive ctx @ [Hdr h]\<rparr>))"

definition io_Copy :: "stdlib \<Rightarrow> creationContext \<Rightarrow> byte list \<Rightarrow> error option \<times> creationContext" where
  "io_Copy lib ctx bs =
     (case copy_fault lib (archive ctx) bs of
        Some (e, n) \<Rightarrow> (Some e, ctx\<lparr>archive := archive ctx @ [Body (take n bs)]\<rparr>)
      | None \<Rightarrow> (None, ctx\<lparr>archive := archive ctx @ [Body bs]\<rparr>))"

subsection \<open>addEntry and addDir\<close>

definition isDirectory :: "fileinfo \<Rightarrow> bool" where
  "isDirectory fi \<longleftrightarrow> fi_Mode fi AND (ModeDir OR ModeSymlink) = ModeDir"

definition hashKeyOf :: "stdlib \<Rightarrow> byte list \<Rightarrow> string" where
  "hashKeyOf lib bs = base64_URLEncode lib (sha512_Sum lib bs)"

definition backingPath :: "stdlib \<Rightarrow> string \<Rightarrow> string \<Rightarrow> string" where
  "backingPath lib root hashKey = path_Join lib [root, ''.backing_store'', hashKey]"

text \<open>
  Lines 63 to 88 of \<^verbatim>\<open>addEntry\<close>: the hash is not in the map, so the backing file is
  added to the archive, and the hash is recorded last.
\<close>

definition addBackingFile ::
  "stdlib \<Rightarrow> creationContext \<Rightarrow> fileinfo \<Rightarrow> faults \<Rightarrow> byte list \<Rightarrow> string \<Rightarrow> string
     \<Rightarrow> error option \<times> creationContext" where
  "addBackingFile lib ctx fi fl bs hashKey backingFileArchivePath =
     (case seek_err fl of
        Some e \<Rightarrow> (Some e, ctx)
      | None \<Rightarrow>
         (case FileInfoHeader lib fi of
            Inl e \<Rightarrow> (Some e, ctx)
          | Inr header \<Rightarrow>
             (case WriteHeader lib ctx (header\<lparr>Name := backingFileArchivePath\<rparr>) of
                (Some e, ctx1) \<Rightarrow> (Some e, ctx1)
              | (None, ctx1) \<Rightarrow>
                 (case io_Copy lib ctx1 bs of
                    (Some e, ctx2) \<Rightarrow> (Some e, ctx2)
                  | (None, ctx2) \<Rightarrow>
                      (None, ctx2\<lparr>mapping := (mapping ctx2)(hashKey \<mapsto> True)\<rparr>)))))"

text \<open>Lines 53 to 101 of \<^verbatim>\<open>addEntry\<close>: the entry is a file.\<close>

definition addFile ::
  "stdlib \<Rightarrow> creationContext \<Rightarrow> string \<Rightarrow> fileinfo \<Rightarrow> faults \<Rightarrow> byte list
     \<Rightarrow> error option \<times> creationContext" where
  "addFile lib ctx archivePath fi fl bs =
     (case read_err fl of
        Some e \<Rightarrow> (Some e, ctx)
      | None \<Rightarrow>
         (let hashKey = hashKeyOf lib bs;
              backingFileArchivePath = backingPath lib (rootArchivePath ctx) hashKey
          in case (if mapping ctx hashKey = None
                   then addBackingFile lib ctx fi fl bs hashKey backingFileArchivePath
                   else (None, ctx)) of
               (Some e, ctx1) \<Rightarrow> (Some e, ctx1)
             | (None, ctx1) \<Rightarrow>
                (case FileInfoHeader lib fi of
                   Inl e \<Rightarrow> (Some e, ctx1)
                 | Inr header \<Rightarrow>
                    WriteHeader lib ctx1
                      (header\<lparr>Name := archivePath, Typeflag := TypeLink,
                              Linkname := backingFileArchivePath, Size := 0\<rparr>))))"

text \<open>
  \<^verbatim>\<open>addDir\<close> and its loop over the entries (\<open>addEntries\<close>), and \<^verbatim>\<open>addEntry\<close>, which
  opens the entry and either recurses or handles a file. Each returns the error (or none)
  and the context as the call left it.
\<close>

fun addDir :: "stdlib \<Rightarrow> creationContext \<Rightarrow> string \<Rightarrow> string \<Rightarrow> node \<Rightarrow> bool
                 \<Rightarrow> error option \<times> creationContext"
and addEntries :: "stdlib \<Rightarrow> creationContext \<Rightarrow> string \<Rightarrow> string \<Rightarrow> node list \<Rightarrow> bool
                 \<Rightarrow> error option \<times> creationContext"
and addEntry :: "stdlib \<Rightarrow> creationContext \<Rightarrow> string \<Rightarrow> string \<Rightarrow> node
                 \<Rightarrow> error option \<times> creationContext"
where
  "addDir lib ctx dirPath archivePath (Node fi fl es bs) isRoot =
     (case readdir_err fl of
        Some e \<Rightarrow> (Some e, ctx)
      | None \<Rightarrow> addEntries lib ctx dirPath archivePath es isRoot)"
| "addEntries lib ctx dirPath archivePath [] isRoot = (None, ctx)"
| "addEntries lib ctx dirPath archivePath (n # ns) isRoot =
     (if isRoot \<and> fi_Name (info n) = ''.backing_store''
      then addEntries lib ctx dirPath archivePath ns isRoot
      else (case addEntry lib ctx (filepath_Join lib [dirPath, fi_Name (info n)])
                   (path_Join lib [archivePath, fi_Name (info n)]) n of
              (Some e, ctx1) \<Rightarrow> (Some e, ctx1)
            | (None, ctx1) \<Rightarrow> addEntries lib ctx1 dirPath archivePath ns isRoot))"
| "addEntry lib ctx entryPath archivePath (Node fi fl es bs) =
     (case open_err fl of
        Some e \<Rightarrow> (Some e, ctx)
      | None \<Rightarrow>
         (if isDirectory fi
          then addDir lib ctx entryPath archivePath (Node fi fl es bs) False
          else addFile lib ctx archivePath fi fl bs))"

subsection \<open>main\<close>

text \<open>
  \<^verbatim>\<open>flag.Parse()\<close> (line 113) parses \<^verbatim>\<open>os.Args[1:]\<close> for the command line's flag set,
  whose error handling is \<^verbatim>\<open>ExitOnError\<close>. It either returns, with the value of
  \<^verbatim>\<open>-compress\<close> and the positional arguments, or ends the process itself: on \<^verbatim>\<open>-h\<close> or
  \<^verbatim>\<open>-help\<close> it calls \<^verbatim>\<open>flag.Usage\<close> and exits with status 0; on an undefined or
  malformed flag it prints the error, calls \<^verbatim>\<open>flag.Usage\<close> and exits with status 2.
\<close>

datatype parse_outcome = Parsed bool "string list" | Help | BadFlag string

text \<open>
  What \<^verbatim>\<open>main\<close> reads from its process and the operating system: the program name
  \<^verbatim>\<open>os.Args[0]\<close>, the arguments \<^verbatim>\<open>os.Args[1:]\<close>, how the flag package parses them, what
  \<^verbatim>\<open>flag.PrintDefaults\<close> prints, \<^verbatim>\<open>filepath.Abs\<close> and \<^verbatim>\<open>filepath.Split\<close>, the directory
  a path names, and whether closing the archive and the output stream fails.
\<close>

record os_env =
  os_Args0 :: string
  os_Args1 :: "string list"
  flag_Parse :: "string list \<Rightarrow> parse_outcome"
  flag_Defaults :: string
  filepath_Abs :: "string \<Rightarrow> error + string"
  filepath_Split :: "string \<Rightarrow> string \<times> string"
  os_dir :: "string \<Rightarrow> node"
  archive_Close :: "tar_call list \<Rightarrow> error option"
  output_Close :: "bool \<Rightarrow> error option"

text \<open>
  What the process leaves behind: its exit status, its error stream, and the calls that
  reached the tar writer. The tar writer writes to the standard output, or with
  \<^verbatim>\<open>-compress\<close> to the gzip writer in front of it; what the gzip writer has passed on when
  the process exits is not modelled.
\<close>

record outcome =
  exit_code :: int
  stderr :: string
  archived :: "tar_call list"

text \<open>The status of a process that calls \<^verbatim>\<open>os.Exit(code)\<close>: the low eight bits of the code.\<close>

definition exitStatus :: "int \<Rightarrow> int" where
  "exitStatus code = code mod 256"

definition usage :: "os_env \<Rightarrow> string" where
  "usage env =
     ''usage: '' @ snd (filepath_Split env (os_Args0 env)) @ '' [OPTIONS] [FILE]'' @ [CHR 0x0A]
       @ flag_Defaults env"

definition errorLine :: "error \<Rightarrow> string" where
  "errorLine e = (case e of Error msg \<Rightarrow> ''Error: '' @ msg @ [CHR 0x0A])"

definition main :: "stdlib \<Rightarrow> os_env \<Rightarrow> outcome" where
  "main lib env =
     (case flag_Parse env (os_Args1 env) of
        Help \<Rightarrow> \<lparr>exit_code = exitStatus 0, stderr = usage env, archived = []\<rparr>
      | BadFlag msg \<Rightarrow>
          \<lparr>exit_code = exitStatus 2, stderr = msg @ [CHR 0x0A] @ usage env, archived = []\<rparr>
      | Parsed shouldCompress args \<Rightarrow>
         (if length args \<noteq> 1
          then \<lparr>exit_code = exitStatus 2, stderr = usage env, archived = []\<rparr>
          else
            (case filepath_Abs env (args ! 0) of
               Inl e \<Rightarrow> \<lparr>exit_code = exitStatus (- 1), stderr = errorLine e, archived = []\<rparr>
             | Inr root \<Rightarrow>
                (case open_err (faults (os_dir env root)) of
                   Some e \<Rightarrow>
                     \<lparr>exit_code = exitStatus (- 1), stderr = errorLine e, archived = []\<rparr>
                 | None \<Rightarrow>
                    (let rootPath = snd (filepath_Split env root);
                         ctx = \<lparr>rootArchivePath = rootPath, archive = [], mapping = Map.empty\<rparr>
                     in case addDir lib ctx root rootPath (os_dir env root) True of
                          (Some e, ctx1) \<Rightarrow>
                            \<lparr>exit_code = exitStatus (- 1), stderr = errorLine e,
                              archived = archive ctx1\<rparr>
                        | (None, ctx1) \<Rightarrow>
                           (case archive_Close env (archive ctx1) of
                              Some e \<Rightarrow>
                                \<lparr>exit_code = exitStatus (- 1), stderr = errorLine e,
                                  archived = archive ctx1\<rparr>
                            | None \<Rightarrow>
                               (case output_Close env shouldCompress of
                                  Some e \<Rightarrow>
                                    \<lparr>exit_code = exitStatus (- 1), stderr = errorLine e,
                                      archived = archive ctx1\<rparr>
                                | None \<Rightarrow>
                                    \<lparr>exit_code = 0, stderr = [], archived = archive ctx1\<rparr>)))))))"

section \<open>What the specification talks about\<close>

subsection \<open>The files a walk visits\<close>

text \<open>
  A file occurrence: the logical archive path, the \<^verbatim>\<open>FileInfo\<close> and the content. The
  three functions list the occurrences below a directory in the order of the traversal,
  whatever fails on the way.
\<close>

type_synonym file_occ = "string \<times> fileinfo \<times> byte list"

fun walkDir :: "stdlib \<Rightarrow> string \<Rightarrow> node \<Rightarrow> bool \<Rightarrow> file_occ list"
and walkEntries :: "stdlib \<Rightarrow> string \<Rightarrow> node list \<Rightarrow> bool \<Rightarrow> file_occ list"
and walkEntry :: "stdlib \<Rightarrow> string \<Rightarrow> node \<Rightarrow> file_occ list"
where
  "walkDir lib archivePath (Node fi fl es bs) isRoot = walkEntries lib archivePath es isRoot"
| "walkEntries lib archivePath [] isRoot = []"
| "walkEntries lib archivePath (n # ns) isRoot =
     (if isRoot \<and> fi_Name (info n) = ''.backing_store'' then []
      else walkEntry lib (path_Join lib [archivePath, fi_Name (info n)]) n)
     @ walkEntries lib archivePath ns isRoot"
| "walkEntry lib archivePath (Node fi fl es bs) =
     (if isDirectory fi then walkDir lib archivePath (Node fi fl es bs) False
      else [(archivePath, fi, bs)])"

definition keyOf :: "stdlib \<Rightarrow> file_occ \<Rightarrow> string" where
  "keyOf lib f = hashKeyOf lib (snd (snd f))"

subsection \<open>The records the specification promises\<close>

text \<open>
  Section 4.2 of the specification, step by step: for every file, zero or one stored-blob
  record (header, then content) when the key is new, then one link record; the key is then
  in the table.
\<close>

definition blobCalls :: "stdlib \<Rightarrow> string \<Rightarrow> file_occ \<Rightarrow> tar_call list" where
  "blobCalls lib root f =
     (case f of (archivePath, fi, bs) \<Rightarrow>
        (case FileInfoHeader lib fi of
           Inl e \<Rightarrow> []
         | Inr h \<Rightarrow> [Hdr (h\<lparr>Name := backingPath lib root (hashKeyOf lib bs)\<rparr>), Body bs]))"

definition linkCalls :: "stdlib \<Rightarrow> string \<Rightarrow> file_occ \<Rightarrow> tar_call list" where
  "linkCalls lib root f =
     (case f of (archivePath, fi, bs) \<Rightarrow>
        (case FileInfoHeader lib fi of
           Inl e \<Rightarrow> []
         | Inr h \<Rightarrow> [Hdr (h\<lparr>Name := archivePath, Typeflag := TypeLink,
                            Linkname := backingPath lib root (hashKeyOf lib bs), Size := 0\<rparr>)]))"

definition markStored :: "stdlib \<Rightarrow> (string \<rightharpoonup> bool) \<Rightarrow> file_occ \<Rightarrow> (string \<rightharpoonup> bool)" where
  "markStored lib m f =
     (let k = hashKeyOf lib (snd (snd f)) in if m k = None then m(k \<mapsto> True) else m)"

fun markAll :: "stdlib \<Rightarrow> (string \<rightharpoonup> bool) \<Rightarrow> file_occ list \<Rightarrow> (string \<rightharpoonup> bool)" where
  "markAll lib m [] = m"
| "markAll lib m (f # fs) = markAll lib (markStored lib m f) fs"

fun emit :: "stdlib \<Rightarrow> string \<Rightarrow> (string \<rightharpoonup> bool) \<Rightarrow> file_occ list \<Rightarrow> tar_call list" where
  "emit lib root m [] = []"
| "emit lib root m (f # fs) =
     (if m (hashKeyOf lib (snd (snd f))) = None then blobCalls lib root f else [])
     @ linkCalls lib root f @ emit lib root (markStored lib m f) fs"

text \<open>The occurrences whose key is new when the walk reaches them.\<close>

fun firsts :: "stdlib \<Rightarrow> (string \<rightharpoonup> bool) \<Rightarrow> file_occ list \<Rightarrow> file_occ list" where
  "firsts lib m [] = []"
| "firsts lib m (f # fs) =
     (if m (keyOf lib f) = None then [f] else []) @ firsts lib (markStored lib m f) fs"

definition headersOk :: "stdlib \<Rightarrow> file_occ list \<Rightarrow> bool" where
  "headersOk lib fs \<longleftrightarrow> list_all (\<lambda>f. case FileInfoHeader lib (fst (snd f)) of
                                          Inl e \<Rightarrow> False | Inr h \<Rightarrow> True) fs"

definition extends :: "stdlib \<Rightarrow> creationContext \<Rightarrow> file_occ list \<Rightarrow> creationContext \<Rightarrow> bool" where
  "extends lib ctx fs ctx' \<longleftrightarrow>
     headersOk lib fs \<and>
     ctx' = ctx\<lparr>archive := archive ctx @ emit lib (rootArchivePath ctx) (mapping ctx) fs,
                mapping := markAll lib (mapping ctx) fs\<rparr>"

subsection \<open>Reading the archive back as records\<close>

text \<open>
  A tar record is a header and the content that follows it. A stored-blob record is a
  header with the content copied after it; a header with no copy after it is a link record
  when its type flag is \<^verbatim>\<open>TypeLink\<close>. A directory record is any header whose type flag is
  \<^verbatim>\<open>TypeDir\<close>, whether or not a copy follows it.
\<close>

fun stored_blobs :: "tar_call list \<Rightarrow> (header \<times> byte list) list" where
  "stored_blobs (Hdr h # Body bs # cs) = (h, bs) # stored_blobs cs"
| "stored_blobs (c # cs) = stored_blobs cs"
| "stored_blobs [] = []"

fun bare_headers :: "tar_call list \<Rightarrow> header list" where
  "bare_headers (Hdr h # Body bs # cs) = bare_headers cs"
| "bare_headers (Hdr h # cs) = h # bare_headers cs"
| "bare_headers (Body bs # cs) = bare_headers cs"
| "bare_headers [] = []"

definition link_records :: "tar_call list \<Rightarrow> header list" where
  "link_records cs = filter (\<lambda>h. Typeflag h = TypeLink) (bare_headers cs)"

fun all_headers :: "tar_call list \<Rightarrow> header list" where
  "all_headers [] = []"
| "all_headers (Hdr h # cs) = h # all_headers cs"
| "all_headers (Body bs # cs) = all_headers cs"

definition dir_records :: "tar_call list \<Rightarrow> header list" where
  "dir_records cs = filter (\<lambda>h. Typeflag h = TypeDir) (all_headers cs)"

text \<open>
  The two headers the program can write for a file occurrence: the header
  \<^verbatim>\<open>tar.FileInfoHeader\<close> builds from its \<^verbatim>\<open>FileInfo\<close>, renamed to the backing path, and the
  same header turned into the link.
\<close>

definition fileHeaders :: "stdlib \<Rightarrow> string \<Rightarrow> file_occ \<Rightarrow> header list" where
  "fileHeaders lib root f =
     (case f of (archivePath, fi, bs) \<Rightarrow>
        (case FileInfoHeader lib fi of
           Inl e \<Rightarrow> []
         | Inr h \<Rightarrow>
            [h\<lparr>Name := backingPath lib root (hashKeyOf lib bs)\<rparr>,
             h\<lparr>Name := archivePath, Typeflag := TypeLink,
               Linkname := backingPath lib root (hashKeyOf lib bs), Size := 0\<rparr>]))"

definition hdr_first :: "tar_call list \<Rightarrow> bool" where
  "hdr_first cs \<longleftrightarrow> (case cs of [] \<Rightarrow> True | Hdr h # ds \<Rightarrow> True | Body bs # ds \<Rightarrow> False)"

text \<open>What a call appended to the archive.\<close>

definition written :: "creationContext \<Rightarrow> creationContext \<Rightarrow> tar_call list" where
  "written ctx ctx' = drop (length (archive ctx)) (archive ctx')"

text \<open>
  What a call over the file occurrences \<open>fs\<close> leaves, failing or not: the root name stays,
  the archive only grows, and every header appended is one of the two headers of one of
  the occurrences.
\<close>

definition fromFiles :: "stdlib \<Rightarrow> creationContext \<Rightarrow> file_occ list \<Rightarrow> creationContext \<Rightarrow> bool" where
  "fromFiles lib ctx fs ctx' \<longleftrightarrow>
     rootArchivePath ctx' = rootArchivePath ctx \<and>
     archive ctx' = archive ctx @ written ctx ctx' \<and>
     set (all_headers (written ctx ctx'))
       \<subseteq> (\<Union>f \<in> set fs. set (fileHeaders lib (rootArchivePath ctx) f))"


text \<open>
  What every call preserves, failing or not: the root name stays, the archive only grows,
  and in what was appended every header without content is a link header.
\<close>

definition onlyLinksBare :: "tar_call list \<Rightarrow> bool" where
  "onlyLinksBare cs \<longleftrightarrow> hdr_first cs \<and> list_all (\<lambda>h. Typeflag h = TypeLink) (bare_headers cs)"

definition grows :: "creationContext \<Rightarrow> creationContext \<Rightarrow> bool" where
  "grows c c' \<longleftrightarrow>
     rootArchivePath c' = rootArchivePath c \<and>
     archive c' = archive c @ written c c' \<and>
     onlyLinksBare (written c c')"

subsection \<open>Failure of the first-occurrence branch, and complete blobs\<close>

text \<open>
  Some step of lines 63 to 88 fails: the seek, building the header, writing the header,
  or copying the content.
\<close>

definition blobStepFails :: "stdlib \<Rightarrow> creationContext \<Rightarrow> fileinfo \<Rightarrow> faults \<Rightarrow> byte list \<Rightarrow> bool" where
  "blobStepFails lib ctx fi fl bs \<longleftrightarrow>
     seek_err fl \<noteq> None \<or>
     (case FileInfoHeader lib fi of
        Inl e \<Rightarrow> True
      | Inr h \<Rightarrow>
          (let hb = h\<lparr>Name := backingPath lib (rootArchivePath ctx) (hashKeyOf lib bs)\<rparr>
           in header_fault lib (archive ctx) hb \<noteq> None \<or>
              copy_fault lib (archive ctx @ [Hdr hb]) bs \<noteq> None))"

text \<open>
  Every key of the table has its blob in the archive: a header named by the key's backing
  path, followed by content that hashes to the key.
\<close>

definition blobsComplete :: "stdlib \<Rightarrow> creationContext \<Rightarrow> bool" where
  "blobsComplete lib ctx \<longleftrightarrow>
     (\<forall>k. mapping ctx k \<noteq> None \<longrightarrow>
        (\<exists>r \<in> set (stored_blobs (archive ctx)).
           hashKeyOf lib (snd r) = k \<and> Name (fst r) = backingPath lib (rootArchivePath ctx) k))"

subsection \<open>The first internal failure of a run\<close>

text \<open>
  Section 6 of the specification names the internal failures of a run on one positional
  argument: resolving or opening the root, the traversal, closing the archive, closing the
  output.
\<close>

definition internalFailure :: "stdlib \<Rightarrow> os_env \<Rightarrow> bool \<Rightarrow> string \<Rightarrow> error option" where
  "internalFailure lib env shouldCompress arg =
     (case filepath_Abs env arg of
        Inl e \<Rightarrow> Some e
      | Inr root \<Rightarrow>
         (case open_err (faults (os_dir env root)) of
            Some e \<Rightarrow> Some e
          | None \<Rightarrow>
             (let rootPath = snd (filepath_Split env root);
                  run = addDir lib \<lparr>rootArchivePath = rootPath, archive = [], mapping = Map.empty\<rparr>
                          root rootPath (os_dir env root) True
              in case fst run of
                   Some e \<Rightarrow> Some e
                 | None \<Rightarrow>
                    (case archive_Close env (archive (snd run)) of
                       Some e \<Rightarrow> Some e
                     | None \<Rightarrow> output_Close env shouldCompress))))"

section \<open>A small file system and library to run the program on\<close>

text \<open>
  Stand-ins for the library: the digest is the content itself and its encoding puts
  \<open>sha-\<close> in front (so two contents never collide and no key is empty), a join puts
  \<open>/\<close> between the non-empty elements, every header is that of a regular file, and no
  write fails.
\<close>

fun slashJoin :: "string list \<Rightarrow> string" where
  "slashJoin [] = []"
| "slashJoin [x] = x"
| "slashJoin (x # y # ys) = (if x = [] then slashJoin (y # ys) else x @ ''/'' @ slashJoin (y # ys))"

definition plainHeader :: "fileinfo \<Rightarrow> error + header" where
  "plainHeader fi = Inr \<lparr>Typeflag = CHR ''0'', Name = fi_Name fi, Linkname = [],
                         Size = fi_Size fi, Mode = 420, ModTime = fi_ModTime fi\<rparr>"

definition lib0 :: stdlib where
  "lib0 = \<lparr>sha512_Sum = (\<lambda>bs. bs), base64_URLEncode = (\<lambda>bs. ''sha-'' @ bs),
            path_Join = slashJoin, filepath_Join = slashJoin,
            FileInfoHeader = plainHeader,
            header_fault = (\<lambda>cs h. None), copy_fault = (\<lambda>cs bs. None)\<rparr>"

definition noFaults :: faults where
  "noFaults = \<lparr>open_err = None, readdir_err = None, read_err = None, seek_err = None\<rparr>"

definition regular :: "string \<Rightarrow> byte list \<Rightarrow> node" where
  "regular name bs =
     Node \<lparr>fi_Name = name, fi_Size = int (length bs), fi_Mode = 420, fi_ModTime = 0\<rparr>
       noFaults [] bs"

definition directory :: "string \<Rightarrow> node list \<Rightarrow> node" where
  "directory name es =
     Node \<lparr>fi_Name = name, fi_Size = 4096, fi_Mode = 0x800001ED, fi_ModTime = 0\<rparr>
       noFaults es []"

text \<open>A file whose content cannot be read.\<close>

definition unreadable :: "string \<Rightarrow> node" where
  "unreadable name =
     Node \<lparr>fi_Name = name, fi_Size = 7, fi_Mode = 420, fi_ModTime = 0\<rparr>
       (noFaults\<lparr>read_err := Some (Error ''input/output error'')\<rparr>) [] []"

text \<open>
  The tree of the specification's scenario, \<^verbatim>\<open>root/{a.txt="hi", b/c.txt="hi", d.txt="bye"}\<close>,
  with a backing store left over at the root.
\<close>

definition exampleRoot :: node where
  "exampleRoot = directory ''root''
     [regular ''a.txt'' ''hi'',
      directory ''.backing_store'' [regular ''old'' ''stale''],
      directory ''b'' [regular ''c.txt'' ''hi''],
      regular ''d.txt'' ''bye'']"

definition ctx0 :: creationContext where
  "ctx0 = \<lparr>rootArchivePath = ''root'', archive = [], mapping = Map.empty\<rparr>"

text \<open>What the program writes for that tree, and the context it ends in.\<close>

definition exampleArchive :: "tar_call list" where
  "exampleArchive =
     [Hdr \<lparr>Typeflag = CHR ''0'', Name = ''root/.backing_store/sha-hi'', Linkname = [],
           Size = 2, Mode = 420, ModTime = 0\<rparr>,
      Body ''hi'',
      Hdr \<lparr>Typeflag = CHR ''1'', Name = ''root/a.txt'', Linkname = ''root/.backing_store/sha-hi'',
           Size = 0, Mode = 420, ModTime = 0\<rparr>,
      Hdr \<lparr>Typeflag = CHR ''1'', Name = ''root/b/c.txt'', Linkname = ''root/.backing_store/sha-hi'',
           Size = 0, Mode = 420, ModTime = 0\<rparr>,
      Hdr \<lparr>Typeflag = CHR ''0'', Name = ''root/.backing_store/sha-bye'', Linkname = [],
           Size = 3, Mode = 420, ModTime = 0\<rparr>,
      Body ''bye'',
      Hdr \<lparr>Typeflag = CHR ''1'', Name = ''root/d.txt'', Linkname = ''root/.backing_store/sha-bye'',
           Size = 0, Mode = 420, ModTime = 0\<rparr>]"

definition exampleDone :: creationContext where
  "exampleDone = \<lparr>rootArchivePath = ''root'', archive = exampleArchive,
                   mapping = [''sha-hi'' \<mapsto> True, ''sha-bye'' \<mapsto> True]\<rparr>"

text \<open>
  A symbolic link to a directory: \<^verbatim>\<open>Readdir\<close> reports the link's own mode, opening
  follows the link, and reading the directory it reaches fails.
\<close>

definition symlinkToDir :: node where
  "symlinkToDir =
     Node \<lparr>fi_Name = ''latest'', fi_Size = 6, fi_Mode = 0x80001FF, fi_ModTime = 0\<rparr>
       (noFaults\<lparr>read_err := Some (Error ''read latest: is a directory'')\<rparr>)
       [regular ''inside.txt'' ''hi''] []"

text \<open>The same tree with a file that cannot be read in the middle of it.\<close>

definition brokenRoot :: node where
  "brokenRoot = directory ''root''
     [regular ''a.txt'' ''hi'',
      directory ''b'' [unreadable ''c.txt''],
      regular ''d.txt'' ''bye'']"

text \<open>A second tree with the same contents under other names, and what a run writes for it.\<close>

definition otherRoot :: node where
  "otherRoot = directory ''other''
     [regular ''x'' ''bye'',
      regular ''y'' ''hi'',
      directory ''z'' [regular ''w'' ''hi'']]"

definition otherDone :: creationContext where
  "otherDone = \<lparr>rootArchivePath = ''other'',
     archive =
       [Hdr \<lparr>Typeflag = CHR ''0'', Name = ''other/.backing_store/sha-bye'', Linkname = [],
             Size = 3, Mode = 420, ModTime = 0\<rparr>,
        Body ''bye'',
        Hdr \<lparr>Typeflag = CHR ''1'', Name = ''other/x'', Linkname = ''other/.backing_store/sha-bye'',
             Size = 0, Mode = 420, ModTime = 0\<rparr>,
        Hdr \<lparr>Typeflag = CHR ''0'', Name = ''other/.backing_store/sha-hi'', Linkname = [],
             Size = 2, Mode = 420, ModTime = 0\<rparr>,
        Body ''hi'',
        Hdr \<lparr>Typeflag = CHR ''1'', Name = ''other/y'', Linkname = ''other/.backing_store/sha-hi'',
             Size = 0, Mode = 420, ModTime = 0\<rparr>,
        Hdr \<lparr>Typeflag = CHR ''1'', Name = ''other/z/w'', Linkname = ''other/.backing_store/sha-hi'',
             Size = 0, Mode = 420, ModTime = 0\<rparr>],
     mapping = [''sha-bye'' \<mapsto> True, ''sha-hi'' \<mapsto> True]\<rparr>"

text \<open>A tree with two empty files, and what a run writes for it.\<close>

definition emptiesRoot :: node where
  "emptiesRoot = directory ''root''
     [regular ''e1'' [],
      directory ''sub'' [regular ''e2'' []],
      regular ''d.txt'' ''bye'']"

definition emptiesDone :: creationContext where
  "emptiesDone = \<lparr>rootArchivePath = ''root'',
     archive =
       [Hdr \<lparr>Typeflag = CHR ''0'', Name = ''root/.backing_store/sha-'', Linkname = [],
             Size = 0, Mode = 420, ModTime = 0\<rparr>,
        Body [],
        Hdr \<lparr>Typeflag = CHR ''1'', Name = ''root/e1'', Linkname = ''root/.backing_store/sha-'',
             Size = 0, Mode = 420, ModTime = 0\<rparr>,
        Hdr \<lparr>Typeflag = CHR ''1'', Name = ''root/sub/e2'', Linkname = ''root/.backing_store/sha-'',
             Size = 0, Mode = 420, ModTime = 0\<rparr>,
        Hdr \<lparr>Typeflag = CHR ''0'', Name = ''root/.backing_store/sha-bye'', Linkname = [],
             Size = 3, Mode = 420, ModTime = 0\<rparr>,
        Body ''bye'',
        Hdr \<lparr>Typeflag = CHR ''1'', Name = ''root/d.txt'', Linkname = ''root/.backing_store/sha-bye'',
             Size = 0, Mode = 420, ModTime = 0\<rparr>],
     mapping = [''sha-'' \<mapsto> True, ''sha-bye'' \<mapsto> True]\<rparr>"

text \<open>
  A library whose headers carry the type of the entry, as \<^verbatim>\<open>tar.FileInfoHeader\<close> gives
  it: a directory header (with a slash after the name) for a mode with the directory bit, a
  symbolic-link header for a mode with the symbolic-link bit, a regular-file header
  otherwise.
\<close>

definition typedHeader :: "fileinfo \<Rightarrow> error + header" where
  "typedHeader fi =
     (if fi_Mode fi AND ModeDir \<noteq> 0
      then Inr \<lparr>Typeflag = TypeDir, Name = fi_Name fi @ ''/'', Linkname = [],
                 Size = 0, Mode = 493, ModTime = fi_ModTime fi\<rparr>
      else if fi_Mode fi AND ModeSymlink \<noteq> 0
      then Inr \<lparr>Typeflag = CHR ''2'', Name = fi_Name fi, Linkname = [],
                 Size = 0, Mode = 511, ModTime = fi_ModTime fi\<rparr>
      else Inr \<lparr>Typeflag = CHR ''0'', Name = fi_Name fi, Linkname = [],
                 Size = fi_Size fi, Mode = 420, ModTime = fi_ModTime fi\<rparr>)"

definition libTyped :: stdlib where
  "libTyped = lib0\<lparr>FileInfoHeader := typedHeader\<rparr>"

text \<open>A library whose archive writer accepts one byte of content and then fails.\<close>

definition libFull :: stdlib where
  "libFull = lib0\<lparr>copy_fault := (\<lambda>cs bs. Some (Error ''no space left on device'', 1))\<rparr>"

text \<open>
  A process environment: the program is \<^verbatim>\<open>/usr/bin/tarmac\<close> called with the one
  argument \<^verbatim>\<open>root\<close>, every relative path lies under \<^verbatim>\<open>/src\<close>, a path splits at its last
  slash, every path names the example tree, and closing never fails. The stand-in for the
  flag package knows the one flag \<^verbatim>\<open>compress\<close>, stops at the first argument that is not a
  flag, and treats \<^verbatim>\<open>-h\<close> and \<^verbatim>\<open>-help\<close> as the request for help.
\<close>

definition splitLast :: "string \<Rightarrow> string \<times> string" where
  "splitLast p =
     (let file = rev (takeWhile (\<lambda>c. c \<noteq> CHR ''/'') (rev p))
      in (take (length p - length file) p, file))"

fun parseFlags :: "bool \<Rightarrow> string list \<Rightarrow> parse_outcome" where
  "parseFlags z [] = Parsed z []"
| "parseFlags z (a # rest) =
     (if a = ''--'' then Parsed z rest
      else if a = ''-compress'' \<or> a = ''--compress'' then parseFlags True rest
      else if a = ''-h'' \<or> a = ''--h'' \<or> a = ''-help'' \<or> a = ''--help'' then Help
      else if 2 \<le> length a \<and> take 1 a = ''-''
      then BadFlag (''flag provided but not defined: '' @ a)
      else Parsed z (a # rest))"

definition env0 :: os_env where
  "env0 = \<lparr>os_Args0 = ''/usr/bin/tarmac'', os_Args1 = [''root''],
            flag_Parse = parseFlags False,
            flag_Defaults = ''  -compress: compress output using gzip'',
            filepath_Abs = (\<lambda>p. Inr (''/src/'' @ p)), filepath_Split = splitLast,
            os_dir = (\<lambda>p. exampleRoot),
            archive_Close = (\<lambda>cs. None), output_Close = (\<lambda>z. None)\<rparr>"

section \<open>Auxiliary facts\<close>

subsection \<open>The mode test\<close>

lemma dir_mask:
  "(m :: 32 word) AND (push_bit 31 1 OR push_bit 27 1) = push_bit 31 1
     \<longleftrightarrow> bit m 31 \<and> \<not> bit m 27"
proof
  assume eq: "m AND (push_bit 31 1 OR push_bit 27 1) = push_bit 31 1"
  have "bit (m AND (push_bit 31 1 OR push_bit 27 1)) 31 = bit (push_bit 31 1 :: 32 word) 31"
    and "bit (m AND (push_bit 31 1 OR push_bit 27 1)) 27 = bit (push_bit 31 1 :: 32 word) 27"
    by (simp_all only: eq)
  then show "bit m 31 \<and> \<not> bit m 27"
    by (simp add: bit_and_iff bit_or_iff bit_push_bit_iff del: push_bit_of_1)
next
  assume b: "bit m 31 \<and> \<not> bit m 27"
  show "m AND (push_bit 31 1 OR push_bit 27 1) = push_bit 31 1"
  proof (rule bit_eqI)
    fix n
    show "bit (m AND (push_bit 31 1 OR push_bit 27 1)) n = bit (push_bit 31 1 :: 32 word) n"
      using b
      by (auto simp add: bit_and_iff bit_or_iff bit_push_bit_iff bit_1_iff
               simp del: push_bit_of_1)
  qed
qed

lemma bit_mask: "(m :: 32 word) AND push_bit k 1 = 0 \<longleftrightarrow> \<not> bit m k"
  by (simp add: and_exp_eq_0_iff_not_bit)

lemma isDirectory_bits:
  "isDirectory fi \<longleftrightarrow> fi_Mode fi AND ModeDir \<noteq> 0 \<and> fi_Mode fi AND ModeSymlink = 0"
  unfolding isDirectory_def ModeDir_def ModeSymlink_def dir_mask bit_mask by simp

subsection \<open>A successful file entry\<close>

lemma WriteHeader_ok:
  "WriteHeader lib ctx h = (None, ctx') \<Longrightarrow> ctx' = ctx\<lparr>archive := archive ctx @ [Hdr h]\<rparr>"
  by (auto simp: WriteHeader_def split: option.splits)

lemma io_Copy_ok:
  "io_Copy lib ctx bs = (None, ctx') \<Longrightarrow> ctx' = ctx\<lparr>archive := archive ctx @ [Body bs]\<rparr>"
  by (auto simp: io_Copy_def split: option.splits)

lemma addBackingFile_ok:
  assumes "addBackingFile lib ctx fi fl bs k p = (None, ctx')"
  shows "\<exists>h. FileInfoHeader lib fi = Inr h \<and>
           ctx' = ctx\<lparr>archive := archive ctx @ [Hdr (h\<lparr>Name := p\<rparr>), Body bs],
                      mapping := (mapping ctx)(k \<mapsto> True)\<rparr>"
  using assms
  by (auto simp: addBackingFile_def split: option.splits sum.splits prod.splits
           dest!: WriteHeader_ok io_Copy_ok)

lemma addFile_ok:
  assumes "addFile lib ctx ap fi fl bs = (None, ctx')"
  shows "(\<exists>h. FileInfoHeader lib fi = Inr h) \<and>
         ctx' = ctx\<lparr>archive := archive ctx
                         @ emit lib (rootArchivePath ctx) (mapping ctx) [(ap, fi, bs)],
                    mapping := markStored lib (mapping ctx) (ap, fi, bs)\<rparr>"
  using assms
  by (auto simp: addFile_def Let_def blobCalls_def linkCalls_def markStored_def
           split: option.splits sum.splits prod.splits if_splits
           dest!: WriteHeader_ok addBackingFile_ok)

subsection \<open>A successful walk writes what the specification promises\<close>

lemma emit_append:
  "emit lib root m (fs @ gs) = emit lib root m fs @ emit lib root (markAll lib m fs) gs"
  by (induction fs arbitrary: m) auto

lemma markAll_append:
  "markAll lib m (fs @ gs) = markAll lib (markAll lib m fs) gs"
  by (induction fs arbitrary: m) auto

lemma headersOk_append: "headersOk lib (fs @ gs) \<longleftrightarrow> headersOk lib fs \<and> headersOk lib gs"
  by (simp add: headersOk_def)

lemma headersOk_Cons:
  "headersOk lib ((ap, fi, bs) # fs)
     \<longleftrightarrow> (\<exists>h. FileInfoHeader lib fi = Inr h) \<and> headersOk lib fs"
  by (auto simp: headersOk_def split: sum.splits)

lemma extends_Nil: "extends lib ctx [] ctx"
  by (simp add: extends_def headersOk_def)

lemma extends_trans:
  "extends lib ctx fs ctx1 \<Longrightarrow> extends lib ctx1 gs ctx2 \<Longrightarrow> extends lib ctx (fs @ gs) ctx2"
  by (auto simp: extends_def emit_append markAll_append headersOk_append)

lemma addFile_extends:
  "addFile lib ctx ap fi fl bs = (None, ctx') \<Longrightarrow> extends lib ctx [(ap, fi, bs)] ctx'"
  using addFile_ok[of lib ctx ap fi fl bs ctx']
  by (simp add: extends_def headersOk_Cons) (simp add: headersOk_def)

lemma walk_ok:
  "\<forall>ctx'. addDir lib ctx dp ap n r = (None, ctx')
      \<longrightarrow> extends lib ctx (walkDir lib ap n r) ctx'"
  "\<forall>ctx'. addEntries lib ctx dp ap ns r = (None, ctx')
      \<longrightarrow> extends lib ctx (walkEntries lib ap ns r) ctx'"
  "\<forall>ctx'. addEntry lib ctx ep ap2 n2 = (None, ctx')
      \<longrightarrow> extends lib ctx (walkEntry lib ap2 n2) ctx'"
proof (induction lib ctx dp ap n r and lib ctx dp ap ns r and lib ctx ep ap2 n2
       rule: addDir_addEntries_addEntry.induct)
  case (1 lib ctx dirPath archivePath fi fl es bs isRoot)
  then show ?case by (auto split: option.splits)
next
  case (2 lib ctx dirPath archivePath isRoot)
  show ?case by (simp add: extends_Nil)
next
  case (3 lib ctx dirPath archivePath n ns isRoot)
  show ?case
  proof (cases "isRoot \<and> fi_Name (info n) = ''.backing_store''")
    case True
    with 3 show ?thesis by simp
  next
    case False
    show ?thesis
    proof (intro allI impI)
      fix ctx'
      assume run: "addEntries lib ctx dirPath archivePath (n # ns) isRoot = (None, ctx')"
      let ?ep = "filepath_Join lib [dirPath, fi_Name (info n)]"
      let ?ap = "path_Join lib [archivePath, fi_Name (info n)]"
      obtain r1 ctx1 where e: "addEntry lib ctx ?ep ?ap n = (r1, ctx1)"
        by (cases "addEntry lib ctx ?ep ?ap n")
      from run False e have r1: "r1 = None"
        by (cases r1) auto
      from run False e r1
      have rest: "addEntries lib ctx1 dirPath archivePath ns isRoot = (None, ctx')"
        by auto
      from 3(2)[OF False] e r1 have a: "extends lib ctx (walkEntry lib ?ap n) ctx1"
        by simp
      from 3(3)[OF False e[symmetric, unfolded r1]] rest
      have b: "extends lib ctx1 (walkEntries lib archivePath ns isRoot) ctx'"
        by simp
      from extends_trans[OF a b] False
      show "extends lib ctx (walkEntries lib archivePath (n # ns) isRoot) ctx'"
        by auto
    qed
  qed
next
  case (4 lib ctx entryPath archivePath fi fl es bs)
  then show ?case
    by (auto split: option.splits dest: addFile_extends)
qed

subsection \<open>The records of what was promised\<close>

lemma hdr_first_emit: "hdr_first (emit lib root m fs)"
proof (induction fs arbitrary: m)
  case Nil
  show ?case by (simp add: hdr_first_def)
next
  case (Cons f fs)
  obtain ap fi bs where f: "f = (ap, fi, bs)" by (cases f)
  show ?case
    using Cons[of "markStored lib m f"]
    by (cases "FileInfoHeader lib fi")
       (auto simp: f hdr_first_def blobCalls_def linkCalls_def)
qed

lemma stored_blobs_Hdr: "hdr_first cs \<Longrightarrow> stored_blobs (Hdr h # cs) = stored_blobs cs"
  by (cases cs) (auto simp: hdr_first_def split: tar_call.splits)

lemma bare_headers_Hdr: "hdr_first cs \<Longrightarrow> bare_headers (Hdr h # cs) = h # bare_headers cs"
  by (cases cs) (auto simp: hdr_first_def split: tar_call.splits)

lemma stored_blobs_emit_Cons:
  assumes "FileInfoHeader lib fi = Inr h"
  shows "stored_blobs (emit lib root m ((ap, fi, bs) # fs)) =
           (if m (hashKeyOf lib bs) = None
            then [(h\<lparr>Name := backingPath lib root (hashKeyOf lib bs)\<rparr>, bs)] else [])
           @ stored_blobs (emit lib root (markStored lib m (ap, fi, bs)) fs)"
  using assms hdr_first_emit[of lib root "markStored lib m (ap, fi, bs)" fs]
  by (simp add: blobCalls_def linkCalls_def stored_blobs_Hdr)

lemma bare_headers_emit_Cons:
  assumes "FileInfoHeader lib fi = Inr h"
  shows "bare_headers (emit lib root m ((ap, fi, bs) # fs)) =
           h\<lparr>Name := ap, Typeflag := TypeLink,
             Linkname := backingPath lib root (hashKeyOf lib bs), Size := 0\<rparr>
           # bare_headers (emit lib root (markStored lib m (ap, fi, bs)) fs)"
  using assms hdr_first_emit[of lib root "markStored lib m (ap, fi, bs)" fs]
  by (simp add: blobCalls_def linkCalls_def bare_headers_Hdr)

lemma blob_bodies:
  "headersOk lib fs \<Longrightarrow>
     map snd (stored_blobs (emit lib root m fs)) = map (\<lambda>f. snd (snd f)) (firsts lib m fs)"
proof (induction fs arbitrary: m)
  case Nil
  show ?case by simp
next
  case (Cons f fs)
  obtain ap fi bs where f: "f = (ap, fi, bs)" by (cases f)
  from Cons.prems obtain h where h: "FileInfoHeader lib fi = Inr h" and ok: "headersOk lib fs"
    by (auto simp: f headersOk_Cons)
  show ?case
    using Cons.IH[OF ok, of "markStored lib m f"]
    by (simp add: f stored_blobs_emit_Cons[OF h] keyOf_def del: emit.simps)
qed

lemma link_headers:
  "headersOk lib fs \<Longrightarrow>
     map (\<lambda>h. (Name h, Typeflag h, Linkname h, Size h)) (bare_headers (emit lib root m fs)) =
     map (\<lambda>f. (fst f, TypeLink, backingPath lib root (keyOf lib f), 0)) fs"
proof (induction fs arbitrary: m)
  case Nil
  show ?case by simp
next
  case (Cons f fs)
  obtain ap fi bs where f: "f = (ap, fi, bs)" by (cases f)
  from Cons.prems obtain h where h: "FileInfoHeader lib fi = Inr h" and ok: "headersOk lib fs"
    by (auto simp: f headersOk_Cons)
  show ?case
    using Cons.IH[OF ok, of "markStored lib m f"]
    by (simp add: f bare_headers_emit_Cons[OF h] keyOf_def del: emit.simps)
qed

lemma firsts_count:
  "length (filter (\<lambda>f. keyOf lib f = k) (firsts lib m fs)) =
     (if m k = None \<and> k \<in> keyOf lib ` set fs then 1 else 0)"
proof (induction fs arbitrary: m)
  case Nil
  show ?case by simp
next
  case (Cons f fs)
  have m': "markStored lib m f k = None \<longleftrightarrow> m k = None \<and> k \<noteq> keyOf lib f"
    by (auto simp: markStored_def keyOf_def Let_def)
  show ?case
    unfolding firsts.simps filter_append length_append Cons.IH[of "markStored lib m f"] m'
    by auto
qed

lemma firsts_subset: "set (firsts lib m fs) \<subseteq> set fs"
  by (induction fs arbitrary: m) auto

lemma dom_markAll: "dom (markAll lib m fs) = dom m \<union> keyOf lib ` set fs"
  by (induction fs arbitrary: m) (auto simp: markStored_def keyOf_def Let_def split: if_splits)

lemma link_names:
  "headersOk lib fs \<Longrightarrow> map Name (bare_headers (emit lib root m fs)) = map fst fs"
  using link_headers[of lib fs root m, THEN arg_cong[where f = "map fst"]]
  by (simp add: comp_def)

lemma link_targets:
  "headersOk lib fs \<Longrightarrow>
     map Linkname (bare_headers (emit lib root m fs)) =
     map (\<lambda>f. backingPath lib root (keyOf lib f)) fs"
  using link_headers[of lib fs root m, THEN arg_cong[where f = "map (\<lambda>q. fst (snd (snd q)))"]]
  by (simp add: comp_def)

lemma link_flags:
  assumes "headersOk lib fs" and "h \<in> set (bare_headers (emit lib root m fs))"
  shows "Typeflag h = TypeLink \<and> Size h = 0"
proof -
  let ?p = "\<lambda>h. (Name h, Typeflag h, Linkname h, Size h)"
  from assms(2) have "?p h \<in> ?p ` set (bare_headers (emit lib root m fs))"
    by (rule imageI)
  then have "?p h \<in> set (map ?p (bare_headers (emit lib root m fs)))"
    by (simp only: set_map)
  then have "?p h \<in> set (map (\<lambda>f. (fst f, TypeLink, backingPath lib root (keyOf lib f), 0 :: int)) fs)"
    by (simp only: link_headers[OF assms(1)])
  then obtain f where "?p h = (fst f, TypeLink, backingPath lib root (keyOf lib f), 0 :: int)"
    by (auto simp only: set_map)
  then show ?thesis by simp
qed

lemma link_records_emit:
  "headersOk lib fs \<Longrightarrow> link_records (emit lib root m fs) = bare_headers (emit lib root m fs)"
  unfolding link_records_def
  using link_flags[of lib fs _ root m] by (intro filter_True) simp

lemma blob_count:
  assumes "headersOk lib fs"
  shows "length (filter (\<lambda>r. hashKeyOf lib (snd r) = k) (stored_blobs (emit lib root m fs))) =
           (if m k = None \<and> k \<in> keyOf lib ` set fs then 1 else 0)"
proof -
  have "length (filter (\<lambda>r. hashKeyOf lib (snd r) = k) (stored_blobs (emit lib root m fs))) =
        length (filter (\<lambda>bs. hashKeyOf lib bs = k) (map snd (stored_blobs (emit lib root m fs))))"
    by (simp add: filter_map comp_def)
  also have "\<dots> = length (filter (\<lambda>f. keyOf lib f = k) (firsts lib m fs))"
    by (simp add: blob_bodies[OF assms] filter_map comp_def keyOf_def)
  finally show ?thesis by (simp only: firsts_count)
qed

lemma extends_written:
  assumes "extends lib ctx fs ctx'"
  shows "written ctx ctx' = emit lib (rootArchivePath ctx) (mapping ctx) fs"
    and "archive ctx' = archive ctx @ written ctx ctx'"
  using assms by (simp_all add: extends_def written_def)

lemma same_content_one_blob:
  assumes ok: "headersOk lib fs" and ne: "fs \<noteq> []" and fresh: "m = Map.empty"
    and same: "\<forall>f \<in> set fs. \<forall>g \<in> set fs. snd (snd f) = snd (snd g)"
  shows "length (stored_blobs (emit lib root m fs)) = 1"
proof -
  obtain f0 where f0: "f0 \<in> set fs" using ne by (cases fs) auto
  have keys: "keyOf lib f = keyOf lib f0" if "f \<in> set fs" for f
  proof -
    from same that f0 have "snd (snd f) = snd (snd f0)" by blast
    then show ?thesis by (simp only: keyOf_def)
  qed
  have "keyOf lib f0 \<in> keyOf lib ` set fs"
    using f0 by (rule imageI)
  moreover have "m (keyOf lib f0) = None"
    by (simp add: fresh)
  ultimately have one: "length (filter (\<lambda>f. keyOf lib f = keyOf lib f0) (firsts lib m fs)) = 1"
    by (simp only: firsts_count) simp
  have "\<And>f. f \<in> set (firsts lib m fs) \<Longrightarrow> keyOf lib f = keyOf lib f0"
    using keys firsts_subset[of lib m fs] by blast
  then have full: "filter (\<lambda>f. keyOf lib f = keyOf lib f0) (firsts lib m fs) = firsts lib m fs"
    by (intro filter_True) blast
  have "length (stored_blobs (emit lib root m fs)) = length (firsts lib m fs)"
    using blob_bodies[OF ok, of root m, THEN arg_cong[where f = length]]
    by (simp only: length_map)
  also have "\<dots> = 1"
    using one by (simp only: full)
  finally show ?thesis .
qed

subsection \<open>The example run\<close>

lemma example_run:
  "addDir lib0 ctx0 ''/src/root'' ''root'' exampleRoot True = (None, exampleDone)"
  by (simp add: exampleRoot_def directory_def regular_def lib0_def noFaults_def
      isDirectory_def ModeDir_def ModeSymlink_def
      addFile_def addBackingFile_def WriteHeader_def io_Copy_def ctx0_def hashKeyOf_def
      backingPath_def plainHeader_def Let_def exampleDone_def exampleArchive_def TypeLink_def)

lemma example_walk:
  "walkDir lib0 ''root'' exampleRoot True =
     [(''root/a.txt'', \<lparr>fi_Name = ''a.txt'', fi_Size = 2, fi_Mode = 420, fi_ModTime = 0\<rparr>, ''hi''),
      (''root/b/c.txt'', \<lparr>fi_Name = ''c.txt'', fi_Size = 2, fi_Mode = 420, fi_ModTime = 0\<rparr>, ''hi''),
      (''root/d.txt'', \<lparr>fi_Name = ''d.txt'', fi_Size = 3, fi_Mode = 420, fi_ModTime = 0\<rparr>, ''bye'')]"
  by (simp add: exampleRoot_def directory_def regular_def lib0_def
      isDirectory_def ModeDir_def ModeSymlink_def)

subsection \<open>The root walk\<close>


subsection \<open>What every walk preserves\<close>

lemma walk_rel:
  assumes refl: "\<forall>c. R c c"
    and trans: "\<forall>a b c. R a b \<longrightarrow> R b c \<longrightarrow> R a c"
    and onFile: "\<forall>c ap fi fl bs r c'. addFile lib c ap fi fl bs = (r, c') \<longrightarrow> R c c'"
  shows "\<forall>res ctx'. addDir lib ctx dp ap n r = (res, ctx') \<longrightarrow> R ctx ctx'"
    and "\<forall>res ctx'. addEntries lib ctx dp ap ns r = (res, ctx') \<longrightarrow> R ctx ctx'"
    and "\<forall>res ctx'. addEntry lib ctx ep ap2 n2 = (res, ctx') \<longrightarrow> R ctx ctx'"
  using onFile
proof (induction lib ctx dp ap n r and lib ctx dp ap ns r and lib ctx ep ap2 n2
       rule: addDir_addEntries_addEntry.induct)
  case (1 lib ctx dirPath archivePath fi fl es bs isRoot)
  then show ?case using refl by (auto split: option.splits)
next
  case (2 lib ctx dirPath archivePath isRoot)
  show ?case by (simp add: refl)
next
  case (3 lib ctx dirPath archivePath n ns isRoot)
  show ?case
  proof (cases "isRoot \<and> fi_Name (info n) = ''.backing_store''")
    case True
    with 3 show ?thesis by simp
  next
    case False
    show ?thesis
    proof (intro allI impI)
      fix res ctx'
      assume run: "addEntries lib ctx dirPath archivePath (n # ns) isRoot = (res, ctx')"
      let ?ep = "filepath_Join lib [dirPath, fi_Name (info n)]"
      let ?ap = "path_Join lib [archivePath, fi_Name (info n)]"
      obtain r1 ctx1 where e: "addEntry lib ctx ?ep ?ap n = (r1, ctx1)"
        by (cases "addEntry lib ctx ?ep ?ap n")
      from 3(2)[OF False 3(4)] e have a: "R ctx ctx1" by simp
      show "R ctx ctx'"
      proof (cases r1)
        case None
        with run False e
        have rest: "addEntries lib ctx1 dirPath archivePath ns isRoot = (res, ctx')"
          by simp
        from 3(3)[OF False e[symmetric] None 3(4)] rest have "R ctx1 ctx'"
          by simp
        with a show ?thesis using trans by blast
      next
        case (Some err)
        with run False e have "ctx' = ctx1" by simp
        with a show ?thesis by simp
      qed
    qed
  qed
next
  case (4 lib ctx entryPath archivePath fi fl es bs)
  then show ?case
    using refl by (auto split: option.splits)
qed

lemma bare_headers_append:
  "hdr_first ds \<Longrightarrow> bare_headers (cs @ ds) = bare_headers cs @ bare_headers ds"
  by (induction cs rule: bare_headers.induct) (simp_all add: bare_headers_Hdr)

lemma hdr_first_append: "hdr_first cs \<Longrightarrow> hdr_first ds \<Longrightarrow> hdr_first (cs @ ds)"
  by (cases cs) (auto simp: hdr_first_def split: tar_call.splits)

lemma onlyLinksBare_append:
  "onlyLinksBare cs \<Longrightarrow> onlyLinksBare ds \<Longrightarrow> onlyLinksBare (cs @ ds)"
  by (simp add: onlyLinksBare_def bare_headers_append hdr_first_append)

lemma grows_refl: "grows c c"
  by (simp add: grows_def written_def onlyLinksBare_def hdr_first_def)

lemma grows_trans:
  assumes "grows a b" and "grows b c"
  shows "grows a c"
proof -
  from assms have ab: "archive b = archive a @ written a b"
    and bc: "archive c = archive b @ written b c"
    by (simp_all add: grows_def)
  have w: "written a c = written a b @ written b c"
    unfolding written_def[of a c] bc
    by (subst ab) (simp add: written_def[of b c, symmetric])
  have "archive c = archive a @ written a c"
    unfolding w using ab bc by simp
  with assms w show ?thesis
    by (simp add: grows_def onlyLinksBare_append)
qed

lemma addFile_grows:
  "addFile lib c ap fi fl bs = (r, c') \<Longrightarrow> grows c c'"
  by (auto simp: addFile_def addBackingFile_def WriteHeader_def io_Copy_def Let_def
                 grows_def written_def onlyLinksBare_def hdr_first_def
           split: option.splits sum.splits prod.splits if_splits)

lemma walk_grows:
  "addDir lib ctx dp ap n r = (res, ctx') \<Longrightarrow> grows ctx ctx'"
  "addEntries lib ctx dp ap ns r = (res, ctx') \<Longrightarrow> grows ctx ctx'"
  "addEntry lib ctx ep ap2 n2 = (res, ctx') \<Longrightarrow> grows ctx ctx'"
proof -
  have r: "\<forall>c. grows c c"
    by (simp add: grows_refl)
  have t: "\<forall>a b c. grows a b \<longrightarrow> grows b c \<longrightarrow> grows a c"
    using grows_trans by blast
  have f: "\<forall>c ap fi fl bs r c'. addFile lib c ap fi fl bs = (r, c') \<longrightarrow> grows c c'"
    using addFile_grows by blast
  note w = walk_rel[where R = grows and lib = lib, OF r t f]
  show "addDir lib ctx dp ap n r = (res, ctx') \<Longrightarrow> grows ctx ctx'"
    using w(1) by blast
  show "addEntries lib ctx dp ap ns r = (res, ctx') \<Longrightarrow> grows ctx ctx'"
    using w(2) by blast
  show "addEntry lib ctx ep ap2 n2 = (res, ctx') \<Longrightarrow> grows ctx ctx'"
    using w(3) by blast
qed

lemma addEntries_append:
  "addEntries lib ctx dp ap (xs @ ys) r =
     (case addEntries lib ctx dp ap xs r of
        (Some e, c) \<Rightarrow> (Some e, c)
      | (None, c) \<Rightarrow> addEntries lib c dp ap ys r)"
  by (induction xs arbitrary: ctx) (auto split: prod.splits option.splits)

subsection \<open>Records in what a walk appends, and the failing example\<close>

lemma example_broken_prefix:
  "addEntries lib0 ctx0 ''/src/root'' ''root'' [regular ''a.txt'' ''hi''] True =
     (None, \<lparr>rootArchivePath = ''root'', archive = take 3 exampleArchive,
              mapping = [''sha-hi'' \<mapsto> True]\<rparr>)"
  by (simp add: regular_def lib0_def noFaults_def isDirectory_def ModeDir_def ModeSymlink_def
      addFile_def addBackingFile_def WriteHeader_def io_Copy_def ctx0_def hashKeyOf_def
      backingPath_def plainHeader_def Let_def exampleArchive_def TypeLink_def)

lemma example_broken_entry:
  "addEntry lib0 \<lparr>rootArchivePath = ''root'', archive = take 3 exampleArchive,
                  mapping = [''sha-hi'' \<mapsto> True]\<rparr>
     (filepath_Join lib0 [''/src/root'', fi_Name (info (directory ''b'' [unreadable ''c.txt'']))])
     (path_Join lib0 [''root'', fi_Name (info (directory ''b'' [unreadable ''c.txt'']))])
     (directory ''b'' [unreadable ''c.txt'']) =
     (Some (Error ''input/output error''),
      \<lparr>rootArchivePath = ''root'', archive = take 3 exampleArchive,
        mapping = [''sha-hi'' \<mapsto> True]\<rparr>)"
  by (simp add: directory_def unreadable_def lib0_def noFaults_def isDirectory_def ModeDir_def
      ModeSymlink_def addFile_def)

subsection \<open>Keys and names\<close>

lemma other_run:
  "addDir lib0 \<lparr>rootArchivePath = ''other'', archive = [], mapping = Map.empty\<rparr>
     ''/mnt/other'' ''other'' otherRoot True = (None, otherDone)"
  by (simp add: otherRoot_def directory_def regular_def lib0_def noFaults_def
      isDirectory_def ModeDir_def ModeSymlink_def
      addFile_def addBackingFile_def WriteHeader_def io_Copy_def hashKeyOf_def
      backingPath_def plainHeader_def Let_def otherDone_def TypeLink_def)

lemma other_walk:
  "map (\<lambda>f. snd (snd f)) (walkDir lib0 ''other'' otherRoot True) = [''bye'', ''hi'', ''hi'']"
  by (simp add: otherRoot_def directory_def regular_def lib0_def
      isDirectory_def ModeDir_def ModeSymlink_def)

lemma blob_name_of_body:
  "headersOk lib fs \<Longrightarrow>
     list_all (\<lambda>r. Name (fst r) = backingPath lib root (hashKeyOf lib (snd r)))
       (stored_blobs (emit lib root m fs))"
proof (induction fs arbitrary: m)
  case Nil
  show ?case by simp
next
  case (Cons f fs)
  obtain ap fi bs where f: "f = (ap, fi, bs)" by (cases f)
  from Cons.prems obtain h where h: "FileInfoHeader lib fi = Inr h" and ok: "headersOk lib fs"
    by (auto simp: f headersOk_Cons)
  show ?case
    using Cons.IH[OF ok, of "markStored lib m f"]
    by (simp add: f stored_blobs_emit_Cons[OF h] del: emit.simps)
qed

lemma extends_dom:
  "extends lib ctx fs ctx' \<Longrightarrow> dom (mapping ctx') = dom (mapping ctx) \<union> keyOf lib ` set fs"
  by (simp add: extends_def dom_markAll)

subsection \<open>Empty content\<close>

lemma empties_run:
  "addDir lib0 ctx0 ''/src/root'' ''root'' emptiesRoot True = (None, emptiesDone)"
  by (simp add: emptiesRoot_def directory_def regular_def lib0_def noFaults_def
      isDirectory_def ModeDir_def ModeSymlink_def ctx0_def
      addFile_def addBackingFile_def WriteHeader_def io_Copy_def hashKeyOf_def
      backingPath_def plainHeader_def Let_def emptiesDone_def TypeLink_def)

lemma empties_walk:
  "walkDir lib0 ''root'' emptiesRoot True =
     [(''root/e1'', \<lparr>fi_Name = ''e1'', fi_Size = 0, fi_Mode = 420, fi_ModTime = 0\<rparr>, []),
      (''root/sub/e2'', \<lparr>fi_Name = ''e2'', fi_Size = 0, fi_Mode = 420, fi_ModTime = 0\<rparr>, []),
      (''root/d.txt'', \<lparr>fi_Name = ''d.txt'', fi_Size = 3, fi_Mode = 420, fi_ModTime = 0\<rparr>, ''bye'')]"
  by (simp add: emptiesRoot_def directory_def regular_def lib0_def
      isDirectory_def ModeDir_def ModeSymlink_def)

lemma empty_blobs_le_one:
  assumes "headersOk lib fs"
  shows "length (filter (\<lambda>r. snd r = []) (stored_blobs (emit lib root m fs))) \<le> 1"
proof -
  let ?B = "stored_blobs (emit lib root m fs)"
  have "length (filter (\<lambda>r. snd r = []) ?B)
          = length (filter (\<lambda>r. snd r = []) (filter (\<lambda>r. hashKeyOf lib (snd r) = hashKeyOf lib []) ?B))"
    by (simp add: conj_commute cong: conj_cong)
  also have "\<dots> \<le> length (filter (\<lambda>r. hashKeyOf lib (snd r) = hashKeyOf lib []) ?B)"
    by (rule length_filter_le)
  also have "\<dots> \<le> 1"
    by (simp only: blob_count[OF assms]) simp
  finally show ?thesis .
qed

subsection \<open>Blobs stay, and the table follows them\<close>

lemma stored_blobs_mono: "set (stored_blobs cs) \<subseteq> set (stored_blobs (cs @ ds))"
  by (induction cs rule: stored_blobs.induct) auto

lemma stored_blobs_has: "(h, bs) \<in> set (stored_blobs (cs @ Hdr h # Body bs # ds))"
  by (induction cs rule: stored_blobs.induct) auto

lemma addFile_outcome:
  assumes "addFile lib c ap fi fl bs = (r, c')"
  shows "rootArchivePath c' = rootArchivePath c \<and>
         ((mapping c' = mapping c \<and> (\<exists>ds. archive c' = archive c @ ds)) \<or>
          (\<exists>h ds. FileInfoHeader lib fi = Inr h \<and> mapping c (hashKeyOf lib bs) = None \<and>
             mapping c' = (mapping c)(hashKeyOf lib bs \<mapsto> True) \<and>
             archive c' = archive c @
               Hdr (h\<lparr>Name := backingPath lib (rootArchivePath c) (hashKeyOf lib bs)\<rparr>)
               # Body bs # ds))"
  using assms
  by (auto simp: addFile_def addBackingFile_def WriteHeader_def io_Copy_def Let_def
           split: option.splits sum.splits prod.splits if_splits)

lemma addFile_complete:
  assumes "addFile lib c ap fi fl bs = (r, c')" and "blobsComplete lib c"
  shows "blobsComplete lib c'"
proof -
  from addFile_outcome[OF assms(1)]
  have root: "rootArchivePath c' = rootArchivePath c"
    and cases: "(mapping c' = mapping c \<and> (\<exists>ds. archive c' = archive c @ ds)) \<or>
          (\<exists>h ds. FileInfoHeader lib fi = Inr h \<and> mapping c (hashKeyOf lib bs) = None \<and>
             mapping c' = (mapping c)(hashKeyOf lib bs \<mapsto> True) \<and>
             archive c' = archive c @
               Hdr (h\<lparr>Name := backingPath lib (rootArchivePath c) (hashKeyOf lib bs)\<rparr>)
               # Body bs # ds)"
    by simp_all
  from cases show ?thesis
  proof
    assume "mapping c' = mapping c \<and> (\<exists>ds. archive c' = archive c @ ds)"
    then obtain ds where m: "mapping c' = mapping c" and a: "archive c' = archive c @ ds"
      by blast
    show ?thesis
      unfolding blobsComplete_def m a root
      using assms(2) stored_blobs_mono[of "archive c" ds]
      unfolding blobsComplete_def by blast
  next
    assume "\<exists>h ds. FileInfoHeader lib fi = Inr h \<and> mapping c (hashKeyOf lib bs) = None \<and>
             mapping c' = (mapping c)(hashKeyOf lib bs \<mapsto> True) \<and>
             archive c' = archive c @
               Hdr (h\<lparr>Name := backingPath lib (rootArchivePath c) (hashKeyOf lib bs)\<rparr>)
               # Body bs # ds"
    then obtain h ds where m: "mapping c' = (mapping c)(hashKeyOf lib bs \<mapsto> True)"
      and a: "archive c' = archive c @
               Hdr (h\<lparr>Name := backingPath lib (rootArchivePath c) (hashKeyOf lib bs)\<rparr>)
               # Body bs # ds"
      by blast
    let ?hb = "h\<lparr>Name := backingPath lib (rootArchivePath c) (hashKeyOf lib bs)\<rparr>"
    show ?thesis
      unfolding blobsComplete_def
    proof (intro allI impI)
      fix k
      assume k: "mapping c' k \<noteq> None"
      show "\<exists>r \<in> set (stored_blobs (archive c')).
              hashKeyOf lib (snd r) = k \<and> Name (fst r) = backingPath lib (rootArchivePath c') k"
      proof (cases "k = hashKeyOf lib bs")
        case True
        have "(?hb, bs) \<in> set (stored_blobs (archive c'))"
          unfolding a by (rule stored_blobs_has)
        then show ?thesis
          using True root by (intro bexI[where x = "(?hb, bs)"]) simp_all
      next
        case False
        with k m have "mapping c k \<noteq> None" by simp
        with assms(2) obtain r where r: "r \<in> set (stored_blobs (archive c))"
          and p: "hashKeyOf lib (snd r) = k" "Name (fst r) = backingPath lib (rootArchivePath c) k"
          unfolding blobsComplete_def by blast
        from r stored_blobs_mono[of "archive c"] have "r \<in> set (stored_blobs (archive c'))"
          unfolding a by blast
        with p root show ?thesis by auto
      qed
    qed
  qed
qed

lemma walk_complete:
  assumes "addDir lib ctx dp ap n r = (res, ctx')" and "blobsComplete lib ctx"
  shows "blobsComplete lib ctx'"
proof -
  let ?R = "\<lambda>c c'. blobsComplete lib c \<longrightarrow> blobsComplete lib c'"
  have r: "\<forall>c. ?R c c" by simp
  have t: "\<forall>a b c. ?R a b \<longrightarrow> ?R b c \<longrightarrow> ?R a c" by simp
  have f: "\<forall>c ap fi fl bs r c'. addFile lib c ap fi fl bs = (r, c') \<longrightarrow> ?R c c'"
    using addFile_complete by blast
  from walk_rel(1)[where R = ?R and lib = lib, OF r t f] assms show ?thesis
    by blast
qed

subsection \<open>What main returns\<close>

lemma main_Help:
  "flag_Parse env (os_Args1 env) = Help \<Longrightarrow>
     main lib env = \<lparr>exit_code = 0, stderr = usage env, archived = []\<rparr>"
  by (simp add: main_def exitStatus_def)

lemma main_BadFlag:
  "flag_Parse env (os_Args1 env) = BadFlag m \<Longrightarrow>
     main lib env = \<lparr>exit_code = 2, stderr = m @ [CHR 0x0A] @ usage env, archived = []\<rparr>"
  by (simp add: main_def exitStatus_def)

lemma main_not_one:
  "flag_Parse env (os_Args1 env) = Parsed z args \<Longrightarrow> length args \<noteq> 1 \<Longrightarrow>
     main lib env = \<lparr>exit_code = 2, stderr = usage env, archived = []\<rparr>"
  by (simp add: main_def exitStatus_def)

lemma main_one:
  assumes "flag_Parse env (os_Args1 env) = Parsed z [arg]"
  shows "exit_code (main lib env) = (case internalFailure lib env z arg of None \<Rightarrow> 0 | Some e \<Rightarrow> 255)"
    and "stderr (main lib env) =
           (case internalFailure lib env z arg of None \<Rightarrow> [] | Some e \<Rightarrow> errorLine e)"
  using assms
  by (simp_all add: main_def internalFailure_def exitStatus_def Let_def
               split: sum.splits option.splits prod.splits)

subsection \<open>The example process\<close>

lemma split_root: "splitLast ''/src/root'' = (''/src/'', ''root'')"
  by (simp add: splitLast_def)

lemma env0_run:
  "addDir lib0 \<lparr>rootArchivePath = ''root'', archive = [], mapping = Map.empty\<rparr>
     ''/src/root'' ''root'' exampleRoot True = (None, exampleDone)"
  using example_run by (simp add: ctx0_def)

lemma example_opens: "open_err (faults exampleRoot) = None"
  by (simp add: exampleRoot_def directory_def noFaults_def)

lemma env0_ok: "internalFailure lib0 env0 False ''root'' = None"
  by (simp add: internalFailure_def env0_def split_root env0_run example_opens)

lemma env0_broken:
  "internalFailure lib0 (env0\<lparr>os_dir := (\<lambda>p. brokenRoot)\<rparr>) False ''root'' =
     Some (Error ''input/output error'')"
  by (simp add: internalFailure_def env0_def split_root brokenRoot_def directory_def
      regular_def unreadable_def lib0_def noFaults_def isDirectory_def ModeDir_def ModeSymlink_def
      addFile_def addBackingFile_def WriteHeader_def io_Copy_def hashKeyOf_def
      backingPath_def plainHeader_def Let_def)

lemma env0_usage:
  "usage env0 = ''usage: tarmac [OPTIONS] [FILE]'' @ [CHR 0x0A]
                  @ ''  -compress: compress output using gzip''"
  by (simp add: usage_def env0_def splitLast_def)

subsection \<open>Every header comes from a file\<close>

lemma all_headers_append: "all_headers (cs @ ds) = all_headers cs @ all_headers ds"
  by (induction cs rule: all_headers.induct) simp_all

lemma walk_not_dirs:
  "\<forall>f \<in> set (walkDir lib ap n r). \<not> isDirectory (fst (snd f))"
  "\<forall>f \<in> set (walkEntries lib ap ns r). \<not> isDirectory (fst (snd f))"
  "\<forall>f \<in> set (walkEntry lib ap2 n2). \<not> isDirectory (fst (snd f))"
  by (induction lib ap n r and lib ap ns r and lib ap2 n2
      rule: walkDir_walkEntries_walkEntry.induct) auto

lemma fromFiles_refl: "fromFiles lib c fs c"
  by (simp add: fromFiles_def written_def)

lemma fromFiles_more: "fromFiles lib c fs c' \<Longrightarrow> fromFiles lib c (fs @ gs) c'"
  by (auto simp: fromFiles_def)

lemma fromFiles_trans:
  assumes "fromFiles lib a fs b" and "fromFiles lib b gs c"
  shows "fromFiles lib a (fs @ gs) c"
proof -
  from assms have rb: "rootArchivePath b = rootArchivePath a"
    and rc: "rootArchivePath c = rootArchivePath b"
    and ab: "archive b = archive a @ written a b"
    and bc: "archive c = archive b @ written b c"
    by (simp_all add: fromFiles_def)
  have w: "written a c = written a b @ written b c"
    unfolding written_def[of a c] bc
    by (subst ab) (simp add: written_def[of b c, symmetric])
  have ac: "archive c = archive a @ written a c"
    unfolding w using ab bc by simp
  from assms have "set (all_headers (written a b))
       \<subseteq> (\<Union>f \<in> set fs. set (fileHeaders lib (rootArchivePath a) f))"
    and "set (all_headers (written b c))
       \<subseteq> (\<Union>f \<in> set gs. set (fileHeaders lib (rootArchivePath a) f))"
    by (simp_all add: fromFiles_def rb)
  then have "set (all_headers (written a c))
       \<subseteq> (\<Union>f \<in> set (fs @ gs). set (fileHeaders lib (rootArchivePath a) f))"
    unfolding w all_headers_append by auto
  with ac rb rc show ?thesis
    by (simp add: fromFiles_def)
qed

lemma addFile_fromFiles:
  "addFile lib c ap fi fl bs = (r, c') \<Longrightarrow> fromFiles lib c [(ap, fi, bs)] c'"
  by (auto simp: addFile_def addBackingFile_def WriteHeader_def io_Copy_def Let_def
                 fromFiles_def written_def fileHeaders_def
           split: option.splits sum.splits prod.splits if_splits)

lemma walk_fromFiles:
  "\<forall>res ctx'. addDir lib ctx dp ap n r = (res, ctx')
      \<longrightarrow> fromFiles lib ctx (walkDir lib ap n r) ctx'"
  "\<forall>res ctx'. addEntries lib ctx dp ap ns r = (res, ctx')
      \<longrightarrow> fromFiles lib ctx (walkEntries lib ap ns r) ctx'"
  "\<forall>res ctx'. addEntry lib ctx ep ap2 n2 = (res, ctx')
      \<longrightarrow> fromFiles lib ctx (walkEntry lib ap2 n2) ctx'"
proof (induction lib ctx dp ap n r and lib ctx dp ap ns r and lib ctx ep ap2 n2
       rule: addDir_addEntries_addEntry.induct)
  case (1 lib ctx dirPath archivePath fi fl es bs isRoot)
  then show ?case by (auto split: option.splits simp: fromFiles_refl)
next
  case (2 lib ctx dirPath archivePath isRoot)
  show ?case by (simp add: fromFiles_refl)
next
  case (3 lib ctx dirPath archivePath n ns isRoot)
  show ?case
  proof (cases "isRoot \<and> fi_Name (info n) = ''.backing_store''")
    case True
    with 3 show ?thesis by simp
  next
    case False
    show ?thesis
    proof (intro allI impI)
      fix res ctx'
      assume run: "addEntries lib ctx dirPath archivePath (n # ns) isRoot = (res, ctx')"
      let ?ep = "filepath_Join lib [dirPath, fi_Name (info n)]"
      let ?ap = "path_Join lib [archivePath, fi_Name (info n)]"
      obtain r1 ctx1 where e: "addEntry lib ctx ?ep ?ap n = (r1, ctx1)"
        by (cases "addEntry lib ctx ?ep ?ap n")
      from 3(2)[OF False] e have a: "fromFiles lib ctx (walkEntry lib ?ap n) ctx1"
        by simp
      have w: "walkEntries lib archivePath (n # ns) isRoot =
                 walkEntry lib ?ap n @ walkEntries lib archivePath ns isRoot"
        using False by auto
      show "fromFiles lib ctx (walkEntries lib archivePath (n # ns) isRoot) ctx'"
      proof (cases r1)
        case None
        with run False e
        have rest: "addEntries lib ctx1 dirPath archivePath ns isRoot = (res, ctx')"
          by simp
        from 3(3)[OF False e[symmetric] None] rest
        have "fromFiles lib ctx1 (walkEntries lib archivePath ns isRoot) ctx'"
          by simp
        with a show ?thesis unfolding w by (rule fromFiles_trans)
      next
        case (Some err)
        with run False e have "ctx' = ctx1" by simp
        with a show ?thesis unfolding w by (simp add: fromFiles_more)
      qed
    qed
  qed
next
  case (4 lib ctx entryPath archivePath fi fl es bs)
  then show ?case
    by (auto split: option.splits simp: fromFiles_refl dest: addFile_fromFiles)
qed

lemma all_headers_emit_length:
  "headersOk lib fs \<Longrightarrow>
     length (all_headers (emit lib root m fs)) = length (firsts lib m fs) + length fs"
proof (induction fs arbitrary: m)
  case Nil
  show ?case by simp
next
  case (Cons f fs)
  obtain ap fi bs where f: "f = (ap, fi, bs)" by (cases f)
  from Cons.prems obtain h where h: "FileInfoHeader lib fi = Inr h" and ok: "headersOk lib fs"
    by (auto simp: f headersOk_Cons)
  show ?case
    using Cons.IH[OF ok, of "markStored lib m f"] h
    by (simp add: f all_headers_append blobCalls_def linkCalls_def keyOf_def)
qed

lemma typed_run:
  "addDir libTyped ctx0 ''/src/root'' ''root'' exampleRoot True = (None, exampleDone)"
  by (simp add: exampleRoot_def directory_def regular_def libTyped_def lib0_def noFaults_def
      isDirectory_def ModeDir_def ModeSymlink_def typedHeader_def
      addFile_def addBackingFile_def WriteHeader_def io_Copy_def ctx0_def hashKeyOf_def
      backingPath_def Let_def exampleDone_def exampleArchive_def TypeLink_def)

lemma typed_walk:
  "walkDir libTyped ''root'' exampleRoot True =
     [(''root/a.txt'', \<lparr>fi_Name = ''a.txt'', fi_Size = 2, fi_Mode = 420, fi_ModTime = 0\<rparr>, ''hi''),
      (''root/b/c.txt'', \<lparr>fi_Name = ''c.txt'', fi_Size = 2, fi_Mode = 420, fi_ModTime = 0\<rparr>, ''hi''),
      (''root/d.txt'', \<lparr>fi_Name = ''d.txt'', fi_Size = 3, fi_Mode = 420, fi_ModTime = 0\<rparr>, ''bye'')]"
  by (simp add: exampleRoot_def directory_def regular_def libTyped_def lib0_def
      isDirectory_def ModeDir_def ModeSymlink_def)

lemma typed_directory_header:
  "FileInfoHeader libTyped (info (directory ''b'' [regular ''c.txt'' ''hi''])) =
     Inr \<lparr>Typeflag = TypeDir, Name = ''b/'', Linkname = [], Size = 0, Mode = 493, ModTime = 0\<rparr>"
  by (simp add: libTyped_def lib0_def typedHeader_def directory_def ModeDir_def)

section \<open>The claims\<close>

subsection \<open>Deduplication\<close>

text \<open>
  C1. On a run that completes, the archive grows by exactly the records of the visited
  files, file by file in traversal order: zero or one stored-blob record (when the hash is
  new) followed by one link record at the file's logical path. So every hash met that was
  not yet in the table has exactly one stored-blob record, written at its first
  occurrence, every file has one link record, and any number of files with the same
  content give one stored-blob record and as many link records as files.
\<close>

theorem one_blob_per_hash_one_link_per_file:
  assumes run: "addDir lib ctx dirPath archivePath dir isRoot = (None, ctx')"
  shows "archive ctx' = archive ctx @ written ctx ctx'
    \<and> written ctx ctx' =
        emit lib (rootArchivePath ctx) (mapping ctx) (walkDir lib archivePath dir isRoot)
    \<and> map Name (link_records (written ctx ctx')) = map fst (walkDir lib archivePath dir isRoot)
    \<and> map snd (stored_blobs (written ctx ctx')) =
        map (\<lambda>f. snd (snd f)) (firsts lib (mapping ctx) (walkDir lib archivePath dir isRoot))
    \<and> (\<forall>k. length (filter (\<lambda>r. hashKeyOf lib (snd r) = k) (stored_blobs (written ctx ctx'))) =
             (if mapping ctx k = None \<and> k \<in> keyOf lib ` set (walkDir lib archivePath dir isRoot)
              then 1 else 0))
    \<and> (mapping ctx = Map.empty \<and> walkDir lib archivePath dir isRoot \<noteq> [] \<and>
        (\<forall>f \<in> set (walkDir lib archivePath dir isRoot).
           \<forall>g \<in> set (walkDir lib archivePath dir isRoot). snd (snd f) = snd (snd g))
        \<longrightarrow> length (stored_blobs (written ctx ctx')) = 1 \<and>
            length (link_records (written ctx ctx')) = length (walkDir lib archivePath dir isRoot))
    \<and> (\<forall>c c' entryPath path fi fl es bs.
          \<not> isDirectory fi \<and> addEntry lib c entryPath path (Node fi fl es bs) = (None, c')
          \<longrightarrow> written c c' =
                (if mapping c (hashKeyOf lib bs) = None
                 then blobCalls lib (rootArchivePath c) (path, fi, bs) else [])
                @ linkCalls lib (rootArchivePath c) (path, fi, bs)
            \<and> length (blobCalls lib (rootArchivePath c) (path, fi, bs)) = 2
            \<and> length (linkCalls lib (rootArchivePath c) (path, fi, bs)) = 1)"
proof -
  let ?fs = "walkDir lib archivePath dir isRoot"
  from walk_ok(1)[of lib ctx dirPath archivePath dir isRoot] run
  have ext: "extends lib ctx ?fs ctx'" by simp
  then have ok: "headersOk lib ?fs" by (simp add: extends_def)
  note w = extends_written[OF ext]
  have names: "map Name (link_records (written ctx ctx')) = map fst ?fs"
    by (simp only: w(1) link_records_emit[OF ok] link_names[OF ok])
  have bodies: "map snd (stored_blobs (written ctx ctx')) =
                  map (\<lambda>f. snd (snd f)) (firsts lib (mapping ctx) ?fs)"
    by (simp only: w(1) blob_bodies[OF ok])
  have count: "\<forall>k. length (filter (\<lambda>r. hashKeyOf lib (snd r) = k) (stored_blobs (written ctx ctx'))) =
             (if mapping ctx k = None \<and> k \<in> keyOf lib ` set ?fs then 1 else 0)"
    by (simp only: w(1) blob_count[OF ok]) simp
  have links: "length (link_records (written ctx ctx')) = length ?fs"
    using names[THEN arg_cong[where f = length]] by simp
  have same: "mapping ctx = Map.empty \<and> ?fs \<noteq> [] \<and>
        (\<forall>f \<in> set ?fs. \<forall>g \<in> set ?fs. snd (snd f) = snd (snd g))
        \<longrightarrow> length (stored_blobs (written ctx ctx')) = 1 \<and>
            length (link_records (written ctx ctx')) = length ?fs"
  proof (intro impI, elim conjE)
    assume a: "mapping ctx = Map.empty" "?fs \<noteq> []"
      "\<forall>f \<in> set ?fs. \<forall>g \<in> set ?fs. snd (snd f) = snd (snd g)"
    have "length (stored_blobs (written ctx ctx')) = 1"
      using same_content_one_blob[OF ok a(2) a(1) a(3), of "rootArchivePath ctx"]
      by (simp only: w(1))
    then show "length (stored_blobs (written ctx ctx')) = 1 \<and>
            length (link_records (written ctx ctx')) = length ?fs"
      using links by (rule conjI)
  qed
  have entry: "\<forall>c c' entryPath path fi fl es bs.
          \<not> isDirectory fi \<and> addEntry lib c entryPath path (Node fi fl es bs) = (None, c')
          \<longrightarrow> written c c' =
                (if mapping c (hashKeyOf lib bs) = None
                 then blobCalls lib (rootArchivePath c) (path, fi, bs) else [])
                @ linkCalls lib (rootArchivePath c) (path, fi, bs)
            \<and> length (blobCalls lib (rootArchivePath c) (path, fi, bs)) = 2
            \<and> length (linkCalls lib (rootArchivePath c) (path, fi, bs)) = 1"
  proof (intro allI impI, elim conjE)
    fix c c' entryPath path fi fl es bs
    assume d: "\<not> isDirectory fi"
      and e: "addEntry lib c entryPath path (Node fi fl es bs) = (None, c')"
    from d e have f: "addFile lib c path fi fl bs = (None, c')"
      by (simp split: option.splits)
    from addFile_ok[OF f] obtain h where h: "FileInfoHeader lib fi = Inr h"
      and c': "c' = c\<lparr>archive := archive c
                         @ emit lib (rootArchivePath c) (mapping c) [(path, fi, bs)],
                    mapping := markStored lib (mapping c) (path, fi, bs)\<rparr>"
      by blast
    have "written c c' = emit lib (rootArchivePath c) (mapping c) [(path, fi, bs)]"
      by (simp add: c' written_def)
    then show "written c c' =
                (if mapping c (hashKeyOf lib bs) = None
                 then blobCalls lib (rootArchivePath c) (path, fi, bs) else [])
                @ linkCalls lib (rootArchivePath c) (path, fi, bs)
            \<and> length (blobCalls lib (rootArchivePath c) (path, fi, bs)) = 2
            \<and> length (linkCalls lib (rootArchivePath c) (path, fi, bs)) = 1"
      using h by (simp add: blobCalls_def linkCalls_def)
  qed
  show ?thesis
    by (intro conjI)
       (fact w(2), fact w(1), fact names, fact bodies, fact count, fact same, fact entry)
qed

theorem one_blob_per_hash_one_link_per_file_witness:
  "addDir lib0 ctx0 ''/src/root'' ''root'' exampleRoot True = (None, exampleDone)
   \<and> map Name (link_records (written ctx0 exampleDone)) =
       [''root/a.txt'', ''root/b/c.txt'', ''root/d.txt'']
   \<and> map snd (stored_blobs (written ctx0 exampleDone)) = [''hi'', ''bye'']"
proof -
  note t = one_blob_per_hash_one_link_per_file[OF example_run]
  have names: "map Name (link_records (written ctx0 exampleDone)) =
                 map fst (walkDir lib0 ''root'' exampleRoot True)"
    by (rule t[THEN conjunct2, THEN conjunct2, THEN conjunct1])
  have bodies: "map snd (stored_blobs (written ctx0 exampleDone)) =
      map (\<lambda>f. snd (snd f)) (firsts lib0 (mapping ctx0) (walkDir lib0 ''root'' exampleRoot True))"
    by (rule t[THEN conjunct2, THEN conjunct2, THEN conjunct2, THEN conjunct1])
  have "map fst (walkDir lib0 ''root'' exampleRoot True) =
          [''root/a.txt'', ''root/b/c.txt'', ''root/d.txt'']"
    unfolding example_walk by simp
  moreover have "map (\<lambda>f. snd (snd f))
      (firsts lib0 (mapping ctx0) (walkDir lib0 ''root'' exampleRoot True)) = [''hi'', ''bye'']"
    unfolding example_walk
    by (simp add: ctx0_def keyOf_def hashKeyOf_def lib0_def markStored_def)
  ultimately show ?thesis
    using names bodies example_run by (simp only: simp_thms)
qed

subsection \<open>The hash key\<close>

text \<open>
  C2. The key of a file is the encoded digest of its content and of nothing else: the link
  target of every file, and the name of every stored blob, is the join of the root name,
  \<^verbatim>\<open>.backing_store\<close> and the key of the content, and the table gains exactly the keys of
  the contents met. So two runs that complete over trees with the same contents (as a
  multiset), whatever the names, paths and metadata, and with the same digest and
  encoding, compute the same multiset of keys, end with the same set of keys in their
  tables when they start from empty ones, and, under the same root name and join, write
  the same multiset of link targets.
\<close>

theorem hash_key_depends_on_content_only:
  assumes run1: "addDir lib1 ctx1 dirPath1 archivePath1 dir1 isRoot1 = (None, ctx1')"
    and run2: "addDir lib2 ctx2 dirPath2 archivePath2 dir2 isRoot2 = (None, ctx2')"
    and sameHash: "\<forall>bs. hashKeyOf lib1 bs = hashKeyOf lib2 bs"
    and sameContent:
      "mset (map (\<lambda>f. snd (snd f)) (walkDir lib1 archivePath1 dir1 isRoot1)) =
       mset (map (\<lambda>f. snd (snd f)) (walkDir lib2 archivePath2 dir2 isRoot2))"
  shows "map Linkname (link_records (written ctx1 ctx1')) =
           map (\<lambda>f. path_Join lib1 [rootArchivePath ctx1, ''.backing_store'',
                                   base64_URLEncode lib1 (sha512_Sum lib1 (snd (snd f)))])
             (walkDir lib1 archivePath1 dir1 isRoot1)
    \<and> list_all (\<lambda>r. Name (fst r) =
                    path_Join lib1 [rootArchivePath ctx1, ''.backing_store'',
                                    base64_URLEncode lib1 (sha512_Sum lib1 (snd r))])
         (stored_blobs (written ctx1 ctx1'))
    \<and> dom (mapping ctx1') =
        dom (mapping ctx1) \<union>
        (\<lambda>f. base64_URLEncode lib1 (sha512_Sum lib1 (snd (snd f))))
          ` set (walkDir lib1 archivePath1 dir1 isRoot1)
    \<and> mset (map (keyOf lib1) (walkDir lib1 archivePath1 dir1 isRoot1)) =
        mset (map (keyOf lib2) (walkDir lib2 archivePath2 dir2 isRoot2))
    \<and> (mapping ctx1 = Map.empty \<and> mapping ctx2 = Map.empty
         \<longrightarrow> dom (mapping ctx1') = dom (mapping ctx2'))
    \<and> (path_Join lib1 = path_Join lib2 \<and> rootArchivePath ctx1 = rootArchivePath ctx2
         \<longrightarrow> mset (map Linkname (link_records (written ctx1 ctx1'))) =
             mset (map Linkname (link_records (written ctx2 ctx2'))))"
proof -
  let ?f1 = "walkDir lib1 archivePath1 dir1 isRoot1"
  let ?f2 = "walkDir lib2 archivePath2 dir2 isRoot2"
  from walk_ok(1)[of lib1 ctx1 dirPath1 archivePath1 dir1 isRoot1] run1
  have e1: "extends lib1 ctx1 ?f1 ctx1'" by simp
  from walk_ok(1)[of lib2 ctx2 dirPath2 archivePath2 dir2 isRoot2] run2
  have e2: "extends lib2 ctx2 ?f2 ctx2'" by simp
  from e1 have ok1: "headersOk lib1 ?f1" by (simp add: extends_def)
  from e2 have ok2: "headersOk lib2 ?f2" by (simp add: extends_def)
  note w1 = extends_written(1)[OF e1] and w2 = extends_written(1)[OF e2]
  have l1: "map Linkname (link_records (written ctx1 ctx1')) =
              map (\<lambda>f. backingPath lib1 (rootArchivePath ctx1) (keyOf lib1 f)) ?f1"
    by (simp only: w1 link_records_emit[OF ok1] link_targets[OF ok1])
  have l2: "map Linkname (link_records (written ctx2 ctx2')) =
              map (\<lambda>f. backingPath lib2 (rootArchivePath ctx2) (keyOf lib2 f)) ?f2"
    by (simp only: w2 link_records_emit[OF ok2] link_targets[OF ok2])
  have a: "map Linkname (link_records (written ctx1 ctx1')) =
           map (\<lambda>f. path_Join lib1 [rootArchivePath ctx1, ''.backing_store'',
                                   base64_URLEncode lib1 (sha512_Sum lib1 (snd (snd f)))]) ?f1"
    unfolding l1 by (simp add: backingPath_def keyOf_def hashKeyOf_def)
  have b: "list_all (\<lambda>r. Name (fst r) =
                    path_Join lib1 [rootArchivePath ctx1, ''.backing_store'',
                                    base64_URLEncode lib1 (sha512_Sum lib1 (snd r))])
         (stored_blobs (written ctx1 ctx1'))"
    using blob_name_of_body[OF ok1, of "rootArchivePath ctx1" "mapping ctx1"]
    by (simp add: w1 backingPath_def hashKeyOf_def)
  have c: "dom (mapping ctx1') =
        dom (mapping ctx1) \<union>
        (\<lambda>f. base64_URLEncode lib1 (sha512_Sum lib1 (snd (snd f)))) ` set ?f1"
    using extends_dom[OF e1] by (simp add: keyOf_def hashKeyOf_def)
  have k1: "map (keyOf lib1) ?f1 = map (hashKeyOf lib1) (map (\<lambda>f. snd (snd f)) ?f1)"
    by (simp add: keyOf_def)
  have k2: "map (keyOf lib2) ?f2 = map (hashKeyOf lib1) (map (\<lambda>f. snd (snd f)) ?f2)"
    using sameHash by (simp add: keyOf_def)
  have d: "mset (map (keyOf lib1) ?f1) = mset (map (keyOf lib2) ?f2)"
  proof -
    have "mset (map (hashKeyOf lib1) (map (\<lambda>f. snd (snd f)) ?f1)) =
          image_mset (hashKeyOf lib1) (mset (map (\<lambda>f. snd (snd f)) ?f1))"
      by (rule mset_map)
    also have "\<dots> = image_mset (hashKeyOf lib1) (mset (map (\<lambda>f. snd (snd f)) ?f2))"
      by (simp only: sameContent)
    also have "\<dots> = mset (map (hashKeyOf lib1) (map (\<lambda>f. snd (snd f)) ?f2))"
      by (rule mset_map[symmetric])
    finally show ?thesis by (simp only: k1 k2)
  qed
  have s: "keyOf lib1 ` set ?f1 = keyOf lib2 ` set ?f2"
    using d[THEN arg_cong[where f = set_mset]] by simp
  have e: "mapping ctx1 = Map.empty \<and> mapping ctx2 = Map.empty
         \<longrightarrow> dom (mapping ctx1') = dom (mapping ctx2')"
    using extends_dom[OF e1] extends_dom[OF e2] s by simp
  have g: "path_Join lib1 = path_Join lib2 \<and> rootArchivePath ctx1 = rootArchivePath ctx2
         \<longrightarrow> mset (map Linkname (link_records (written ctx1 ctx1'))) =
             mset (map Linkname (link_records (written ctx2 ctx2')))"
  proof (intro impI, elim conjE)
    assume pj: "path_Join lib1 = path_Join lib2"
      and rt: "rootArchivePath ctx1 = rootArchivePath ctx2"
    have bp: "backingPath lib2 (rootArchivePath ctx2) = backingPath lib1 (rootArchivePath ctx1)"
      by (rule ext) (simp add: backingPath_def pj rt)
    have "mset (map Linkname (link_records (written ctx1 ctx1'))) =
            image_mset (backingPath lib1 (rootArchivePath ctx1)) (mset (map (keyOf lib1) ?f1))"
      unfolding l1 by (simp add: multiset.map_comp comp_def)
    also have "\<dots> = image_mset (backingPath lib1 (rootArchivePath ctx1)) (mset (map (keyOf lib2) ?f2))"
      by (simp only: d)
    also have "\<dots> = mset (map Linkname (link_records (written ctx2 ctx2')))"
      unfolding l2 bp by (simp add: multiset.map_comp comp_def)
    finally show "mset (map Linkname (link_records (written ctx1 ctx1'))) =
             mset (map Linkname (link_records (written ctx2 ctx2')))" .
  qed
  show ?thesis
    by (intro conjI) (fact a, fact b, fact c, fact d, fact e, fact g)
qed

theorem hash_key_depends_on_content_only_witness:
  "addDir lib0 ctx0 ''/src/root'' ''root'' exampleRoot True = (None, exampleDone)
   \<and> addDir lib0 \<lparr>rootArchivePath = ''other'', archive = [], mapping = Map.empty\<rparr>
        ''/mnt/other'' ''other'' otherRoot True = (None, otherDone)
   \<and> mset (map (keyOf lib0) (walkDir lib0 ''root'' exampleRoot True)) =
       mset (map (keyOf lib0) (walkDir lib0 ''other'' otherRoot True))"
proof -
  have sc: "mset (map (\<lambda>f. snd (snd f)) (walkDir lib0 ''root'' exampleRoot True)) =
            mset (map (\<lambda>f. snd (snd f)) (walkDir lib0 ''other'' otherRoot True))"
    unfolding other_walk example_walk by simp
  have sh: "\<forall>bs. hashKeyOf lib0 bs = hashKeyOf lib0 bs"
    by simp
  note t = hash_key_depends_on_content_only[OF example_run other_run sh sc]
  show ?thesis
    by (rule conjI[OF example_run conjI[OF other_run
          t[THEN conjunct2, THEN conjunct2, THEN conjunct2, THEN conjunct1]]])
qed

subsection \<open>Directory or file\<close>

text \<open>
  C3. Once the entry is open, \<^verbatim>\<open>addEntry\<close> takes the directory branch exactly when the
  mode has the directory bit and not the symbolic-link bit: it then returns what \<^verbatim>\<open>addDir\<close>
  returns, adding nothing of its own. Every other entry, a symbolic link to a directory
  included, is handled as a file, and its entries are not walked.
\<close>

theorem directory_iff_dir_bit_without_symlink_bit:
  assumes "open_err fl = None"
  shows "(isDirectory fi \<longleftrightarrow> fi_Mode fi AND ModeDir \<noteq> 0 \<and> fi_Mode fi AND ModeSymlink = 0)
    \<and> addEntry lib ctx entryPath archivePath (Node fi fl es bs) =
        (if fi_Mode fi AND ModeDir \<noteq> 0 \<and> fi_Mode fi AND ModeSymlink = 0
         then addDir lib ctx entryPath archivePath (Node fi fl es bs) False
         else addFile lib ctx archivePath fi fl bs)"
  using assms by (simp add: isDirectory_bits)

theorem directory_iff_dir_bit_without_symlink_bit_witness:
  "open_err (faults symlinkToDir) = None
   \<and> addEntry lib0 ctx0 ''/src/root/latest'' ''root/latest'' symlinkToDir =
       addFile lib0 ctx0 ''root/latest'' (info symlinkToDir) (faults symlinkToDir) []
   \<and> addEntry lib0 ctx0 ''/src/root/latest'' ''root/latest'' symlinkToDir =
       (Some (Error ''read latest: is a directory''), ctx0)"
proof -
  have o: "open_err (faults symlinkToDir) = None"
    by (simp add: symlinkToDir_def noFaults_def)
  have n: "symlinkToDir =
             Node (info symlinkToDir) (faults symlinkToDir) (entries symlinkToDir) []"
    by (simp add: symlinkToDir_def)
  have bits: "\<not> (fi_Mode (info symlinkToDir) AND ModeDir \<noteq> 0 \<and>
                   fi_Mode (info symlinkToDir) AND ModeSymlink = 0)"
    by (simp add: symlinkToDir_def ModeDir_def ModeSymlink_def)
  have "addEntry lib0 ctx0 ''/src/root/latest'' ''root/latest''
          (Node (info symlinkToDir) (faults symlinkToDir) (entries symlinkToDir) []) =
        (if fi_Mode (info symlinkToDir) AND ModeDir \<noteq> 0 \<and>
            fi_Mode (info symlinkToDir) AND ModeSymlink = 0
         then addDir lib0 ctx0 ''/src/root/latest'' ''root/latest''
                (Node (info symlinkToDir) (faults symlinkToDir) (entries symlinkToDir) []) False
         else addFile lib0 ctx0 ''root/latest'' (info symlinkToDir) (faults symlinkToDir) [])"
    by (rule directory_iff_dir_bit_without_symlink_bit[OF o, THEN conjunct2])
  then have e: "addEntry lib0 ctx0 ''/src/root/latest'' ''root/latest'' symlinkToDir =
                  addFile lib0 ctx0 ''root/latest'' (info symlinkToDir) (faults symlinkToDir) []"
    using bits n by (simp only: if_False)
  have f: "addFile lib0 ctx0 ''root/latest'' (info symlinkToDir) (faults symlinkToDir) [] =
             (Some (Error ''read latest: is a directory''), ctx0)"
    by (simp add: addFile_def symlinkToDir_def noFaults_def)
  show ?thesis
    by (rule conjI[OF o conjI[OF e trans[OF e f]]])
qed

subsection \<open>The link record\<close>

text \<open>
  C4. When a file entry is added without error, the last record written is its link
  record, whether or not a stored-blob record came before it: the header built from the
  file's metadata with the name set to the logical archive path, the type flag to
  \<^verbatim>\<open>TypeLink\<close>, the link target to the stored-blob path and the size to zero.
\<close>

theorem link_record_is_written_last:
  assumes "\<not> isDirectory fi"
    and "addEntry lib ctx entryPath archivePath (Node fi fl es bs) = (None, ctx')"
  shows "\<exists>h l. FileInfoHeader lib fi = Inr h
    \<and> l = h\<lparr>Name := archivePath, Typeflag := TypeLink,
             Linkname := path_Join lib [rootArchivePath ctx, ''.backing_store'', hashKeyOf lib bs],
             Size := 0\<rparr>
    \<and> Name l = archivePath \<and> Typeflag l = TypeLink \<and> Size l = 0
    \<and> Linkname l = path_Join lib [rootArchivePath ctx, ''.backing_store'', hashKeyOf lib bs]
    \<and> archive ctx' = archive ctx @ written ctx ctx'
    \<and> written ctx ctx' =
        (if mapping ctx (hashKeyOf lib bs) = None
         then [Hdr (h\<lparr>Name := Linkname l\<rparr>), Body bs] else []) @ [Hdr l]
    \<and> last (archive ctx') = Hdr l"
proof -
  from assms have "addFile lib ctx archivePath fi fl bs = (None, ctx')"
    by (simp split: option.splits)
  from addFile_ok[OF this] obtain h where h: "FileInfoHeader lib fi = Inr h"
    and c: "ctx' = ctx\<lparr>archive := archive ctx
                         @ emit lib (rootArchivePath ctx) (mapping ctx) [(archivePath, fi, bs)],
                    mapping := markStored lib (mapping ctx) (archivePath, fi, bs)\<rparr>"
    by blast
  show ?thesis
    using h by (simp add: c written_def blobCalls_def linkCalls_def backingPath_def)
qed

theorem link_record_is_written_last_witness:
  "\<not> isDirectory \<lparr>fi_Name = ''a.txt'', fi_Size = 2, fi_Mode = 420, fi_ModTime = 0\<rparr>
   \<and> addEntry lib0 ctx0 ''/src/root/a.txt'' ''root/a.txt''
       (Node \<lparr>fi_Name = ''a.txt'', fi_Size = 2, fi_Mode = 420, fi_ModTime = 0\<rparr> noFaults [] ''hi'')
       = (None, \<lparr>rootArchivePath = ''root'', archive = take 3 exampleArchive,
                 mapping = [''sha-hi'' \<mapsto> True]\<rparr>)
   \<and> last (take 3 exampleArchive) =
       Hdr \<lparr>Typeflag = CHR ''1'', Name = ''root/a.txt'', Linkname = ''root/.backing_store/sha-hi'',
            Size = 0, Mode = 420, ModTime = 0\<rparr>"
proof -
  let ?fi = "\<lparr>fi_Name = ''a.txt'', fi_Size = 2, fi_Mode = 420, fi_ModTime = 0\<rparr>"
  let ?c = "\<lparr>rootArchivePath = ''root'', archive = take 3 exampleArchive,
             mapping = [''sha-hi'' \<mapsto> True]\<rparr>"
  have d: "\<not> isDirectory ?fi"
    by (simp add: isDirectory_def ModeDir_def ModeSymlink_def)
  have r: "addEntry lib0 ctx0 ''/src/root/a.txt'' ''root/a.txt'' (Node ?fi noFaults [] ''hi'')
             = (None, ?c)"
    using d
    by (simp add: lib0_def noFaults_def addFile_def addBackingFile_def WriteHeader_def
        io_Copy_def ctx0_def hashKeyOf_def backingPath_def plainHeader_def Let_def
        exampleArchive_def TypeLink_def)
  from link_record_is_written_last[OF d r] obtain h l
    where h: "FileInfoHeader lib0 ?fi = Inr h"
      and l: "l = h\<lparr>Name := ''root/a.txt'', Typeflag := TypeLink,
                   Linkname := path_Join lib0 [rootArchivePath ctx0, ''.backing_store'',
                                               hashKeyOf lib0 ''hi''],
                   Size := 0\<rparr>"
      and e: "last (archive ?c) = Hdr l"
    by blast
  from h have "h = \<lparr>Typeflag = CHR ''0'', Name = ''a.txt'', Linkname = [],
                     Size = 2, Mode = 420, ModTime = 0\<rparr>"
    by (simp add: lib0_def plainHeader_def)
  with l have "l = \<lparr>Typeflag = CHR ''1'', Name = ''root/a.txt'',
                     Linkname = ''root/.backing_store/sha-hi'', Size = 0, Mode = 420, ModTime = 0\<rparr>"
    by (simp add: lib0_def ctx0_def hashKeyOf_def TypeLink_def)
  with e have "last (take 3 exampleArchive) =
       Hdr \<lparr>Typeflag = CHR ''1'', Name = ''root/a.txt'', Linkname = ''root/.backing_store/sha-hi'',
            Size = 0, Mode = 420, ModTime = 0\<rparr>"
    by (simp only: creationContext.simps)
  with d r show ?thesis by (intro conjI)
qed

subsection \<open>The reserved name at the root\<close>



subsection \<open>No directory records\<close>

text \<open>
  C6, as amended. The archive holds the per-file records and nothing else. Whatever a walk
  returns, the archive only grows, and every header appended is one of the two headers of
  a visited file, an entry that is not a directory: the header \<^verbatim>\<open>tar.FileInfoHeader\<close>
  gives for the file, renamed to the backing path of its content, or the same header
  turned into a hard link to that path under the file's own name. So a header of directory
  type is appended only if \<^verbatim>\<open>tar.FileInfoHeader\<close> gives one for such an entry, and a
  directory without entries leaves the context as it was. A walk that returns no error
  appends, file by file in walk order, the content record at the first occurrence of the
  content and then the hard-link record: one hard-link record per file, one content record
  per first occurrence, and no other header. The claim as stated, that walking a directory
  (an empty one too) contributes a directory record, fails: see the counterexample below.
\<close>

theorem only_file_records_are_written:
  assumes "addDir lib ctx dirPath archivePath dir isRoot = (res, ctx')"
  shows "archive ctx' = archive ctx @ written ctx ctx'
    \<and> (\<forall>h \<in> set (all_headers (written ctx ctx')).
          \<exists>f \<in> set (walkDir lib archivePath dir isRoot).
            \<not> isDirectory (fst (snd f)) \<and> h \<in> set (fileHeaders lib (rootArchivePath ctx) f))
    \<and> ((\<forall>f \<in> set (walkDir lib archivePath dir isRoot).
           \<forall>h. FileInfoHeader lib (fst (snd f)) = Inr h \<longrightarrow> Typeflag h \<noteq> TypeDir)
         \<longrightarrow> dir_records (written ctx ctx') = [])
    \<and> (entries dir = [] \<longrightarrow> ctx' = ctx)
    \<and> (res = None \<longrightarrow>
          written ctx ctx' =
            emit lib (rootArchivePath ctx) (mapping ctx) (walkDir lib archivePath dir isRoot)
        \<and> map Name (link_records (written ctx ctx')) = map fst (walkDir lib archivePath dir isRoot)
        \<and> map snd (stored_blobs (written ctx ctx')) =
            map (\<lambda>f. snd (snd f)) (firsts lib (mapping ctx) (walkDir lib archivePath dir isRoot))
        \<and> length (all_headers (written ctx ctx')) =
            length (stored_blobs (written ctx ctx')) + length (link_records (written ctx ctx')))"
proof -
  let ?fs = "walkDir lib archivePath dir isRoot"
  from walk_fromFiles(1)[of lib ctx dirPath archivePath dir isRoot] assms
  have ff: "fromFiles lib ctx ?fs ctx'" by simp
  then have a: "archive ctx' = archive ctx @ written ctx ctx'"
    and sub: "set (all_headers (written ctx ctx'))
                \<subseteq> (\<Union>f \<in> set ?fs. set (fileHeaders lib (rootArchivePath ctx) f))"
    by (simp_all add: fromFiles_def)
  have b: "\<forall>h \<in> set (all_headers (written ctx ctx')).
          \<exists>f \<in> set ?fs. \<not> isDirectory (fst (snd f))
                    \<and> h \<in> set (fileHeaders lib (rootArchivePath ctx) f)"
  proof
    fix h
    assume "h \<in> set (all_headers (written ctx ctx'))"
    with sub obtain f where f: "f \<in> set ?fs"
      and h: "h \<in> set (fileHeaders lib (rootArchivePath ctx) f)"
      by blast
    from walk_not_dirs(1)[of lib archivePath dir isRoot] f
    have "\<not> isDirectory (fst (snd f))" by blast
    with f h show "\<exists>f \<in> set ?fs. \<not> isDirectory (fst (snd f))
                    \<and> h \<in> set (fileHeaders lib (rootArchivePath ctx) f)"
      by blast
  qed
  have c: "(\<forall>f \<in> set ?fs. \<forall>h. FileInfoHeader lib (fst (snd f)) = Inr h \<longrightarrow> Typeflag h \<noteq> TypeDir)
         \<longrightarrow> dir_records (written ctx ctx') = []"
  proof
    assume lib: "\<forall>f \<in> set ?fs. \<forall>h. FileInfoHeader lib (fst (snd f)) = Inr h
                   \<longrightarrow> Typeflag h \<noteq> TypeDir"
    have "Typeflag h \<noteq> TypeDir" if "h \<in> set (all_headers (written ctx ctx'))" for h
    proof -
      from that sub obtain f where f: "f \<in> set ?fs"
        and h: "h \<in> set (fileHeaders lib (rootArchivePath ctx) f)"
        by blast
      obtain ap fi bs where t: "f = (ap, fi, bs)" by (cases f)
      show ?thesis
      proof (cases "FileInfoHeader lib fi")
        case (Inl e)
        with h t show ?thesis by (simp add: fileHeaders_def)
      next
        case (Inr h0)
        with lib f t have "Typeflag h0 \<noteq> TypeDir" by auto
        with h t Inr show ?thesis
          by (auto simp: fileHeaders_def TypeDir_def TypeLink_def)
      qed
    qed
    then show "dir_records (written ctx ctx') = []"
      by (simp add: dir_records_def filter_empty_conv)
  qed
  have d: "entries dir = [] \<longrightarrow> ctx' = ctx"
    using assms by (cases dir) (auto split: option.splits)
  have e: "res = None \<longrightarrow>
          written ctx ctx' = emit lib (rootArchivePath ctx) (mapping ctx) ?fs
        \<and> map Name (link_records (written ctx ctx')) = map fst ?fs
        \<and> map snd (stored_blobs (written ctx ctx')) =
            map (\<lambda>f. snd (snd f)) (firsts lib (mapping ctx) ?fs)
        \<and> length (all_headers (written ctx ctx')) =
            length (stored_blobs (written ctx ctx')) + length (link_records (written ctx ctx'))"
  proof
    assume "res = None"
    with walk_ok(1)[of lib ctx dirPath archivePath dir isRoot] assms
    have ext: "extends lib ctx ?fs ctx'" by simp
    then have ok: "headersOk lib ?fs" by (simp add: extends_def)
    note w = extends_written(1)[OF ext]
    have names: "map Name (link_records (written ctx ctx')) = map fst ?fs"
      by (simp only: w link_records_emit[OF ok] link_names[OF ok])
    have bodies: "map snd (stored_blobs (written ctx ctx')) =
                    map (\<lambda>f. snd (snd f)) (firsts lib (mapping ctx) ?fs)"
      by (simp only: w blob_bodies[OF ok])
    have "length (all_headers (written ctx ctx')) = length (firsts lib (mapping ctx) ?fs) + length ?fs"
      by (simp only: w all_headers_emit_length[OF ok])
    also have "length (firsts lib (mapping ctx) ?fs) = length (stored_blobs (written ctx ctx'))"
      using bodies[THEN arg_cong[where f = length]] by simp
    also have "length ?fs = length (link_records (written ctx ctx'))"
      using names[THEN arg_cong[where f = length]] by simp
    finally have n: "length (all_headers (written ctx ctx')) =
            length (stored_blobs (written ctx ctx')) + length (link_records (written ctx ctx'))" .
    show "written ctx ctx' = emit lib (rootArchivePath ctx) (mapping ctx) ?fs
        \<and> map Name (link_records (written ctx ctx')) = map fst ?fs
        \<and> map snd (stored_blobs (written ctx ctx')) =
            map (\<lambda>f. snd (snd f)) (firsts lib (mapping ctx) ?fs)
        \<and> length (all_headers (written ctx ctx')) =
            length (stored_blobs (written ctx ctx')) + length (link_records (written ctx ctx'))"
      by (intro conjI) (fact w, fact names, fact bodies, fact n)
  qed
  show ?thesis
    by (intro conjI) (fact a, fact b, fact c, fact d, fact e)
qed

theorem only_file_records_are_written_witness:
  "addDir libTyped ctx0 ''/src/root'' ''root'' exampleRoot True = (None, exampleDone)
   \<and> dir_records (written ctx0 exampleDone) = []
   \<and> map Name (link_records (written ctx0 exampleDone)) =
       [''root/a.txt'', ''root/b/c.txt'', ''root/d.txt'']
   \<and> map snd (stored_blobs (written ctx0 exampleDone)) = [''hi'', ''bye'']
   \<and> length (all_headers (written ctx0 exampleDone)) = 5"
proof -
  note t = only_file_records_are_written[OF typed_run]
  have lib: "\<forall>f \<in> set (walkDir libTyped ''root'' exampleRoot True).
               \<forall>h. FileInfoHeader libTyped (fst (snd f)) = Inr h \<longrightarrow> Typeflag h \<noteq> TypeDir"
    unfolding typed_walk
    by (auto simp: libTyped_def lib0_def typedHeader_def ModeDir_def ModeSymlink_def TypeDir_def)
  have d: "dir_records (written ctx0 exampleDone) = []"
    by (rule t[THEN conjunct2, THEN conjunct2, THEN conjunct1, THEN mp, OF lib])
  note s = t[THEN conjunct2, THEN conjunct2, THEN conjunct2, THEN conjunct2, THEN mp, OF refl]
  have names: "map Name (link_records (written ctx0 exampleDone)) =
                 [''root/a.txt'', ''root/b/c.txt'', ''root/d.txt'']"
    using s[THEN conjunct2, THEN conjunct1] unfolding typed_walk by simp
  have bodies: "map snd (stored_blobs (written ctx0 exampleDone)) = [''hi'', ''bye'']"
    using s[THEN conjunct2, THEN conjunct2, THEN conjunct1] unfolding typed_walk
    by (simp add: ctx0_def keyOf_def hashKeyOf_def libTyped_def lib0_def markStored_def)
  have n: "length (all_headers (written ctx0 exampleDone)) = 5"
    using s[THEN conjunct2, THEN conjunct2, THEN conjunct2]
    unfolding bodies[THEN arg_cong[where f = length], simplified, symmetric]
    by (simp add: names[THEN arg_cong[where f = length], simplified]
                  bodies[THEN arg_cong[where f = length], simplified])
  show ?thesis
    by (rule conjI[OF typed_run conjI[OF d conjI[OF names conjI[OF bodies n]]]])
qed

text \<open>
  The library of this run gives a directory the header type \<^verbatim>\<open>5\<close>, so a directory record
  would show. Walking an empty root, or a root that holds one empty directory, appends
  nothing; the archive of the example tree, which has the subdirectory \<^verbatim>\<open>b\<close>, has five
  headers, of types \<^verbatim>\<open>0\<close> and \<^verbatim>\<open>1\<close> only.
\<close>

theorem directory_record_counterexample:
  "addDir libTyped ctx0 ''/src/root'' ''root'' (directory ''root'' []) True = (None, ctx0)
   \<and> archive ctx0 = []
   \<and> addDir libTyped ctx0 ''/src/root'' ''root''
        (directory ''root'' [directory ''empty'' []]) True = (None, ctx0)
   \<and> FileInfoHeader libTyped (info (directory ''b'' [regular ''c.txt'' ''hi''])) =
       Inr \<lparr>Typeflag = TypeDir, Name = ''b/'', Linkname = [], Size = 0, Mode = 493, ModTime = 0\<rparr>
   \<and> map Typeflag
        (all_headers (archive (snd (addDir libTyped ctx0 ''/src/root'' ''root'' exampleRoot True))))
       = ''01101''
   \<and> dir_records (archive (snd (addDir libTyped ctx0 ''/src/root'' ''root'' exampleRoot True)))
       = []"
proof -
  have a: "addDir libTyped ctx0 ''/src/root'' ''root'' (directory ''root'' []) True = (None, ctx0)"
    by (simp add: directory_def noFaults_def)
  have b: "archive ctx0 = []"
    by (simp add: ctx0_def)
  have c: "addDir libTyped ctx0 ''/src/root'' ''root''
             (directory ''root'' [directory ''empty'' []]) True = (None, ctx0)"
    by (simp add: directory_def noFaults_def isDirectory_def ModeDir_def ModeSymlink_def)
  have e: "map Typeflag
        (all_headers (archive (snd (addDir libTyped ctx0 ''/src/root'' ''root'' exampleRoot True))))
       = ''01101''"
    unfolding typed_run snd_conv
    by (simp add: exampleDone_def exampleArchive_def)
  have d: "dir_records (archive (snd (addDir libTyped ctx0 ''/src/root'' ''root'' exampleRoot True)))
             = []"
    unfolding typed_run snd_conv
    by (simp add: exampleDone_def exampleArchive_def dir_records_def TypeDir_def)
  from a b c typed_directory_header e d show ?thesis by (intro conjI)
qed

subsection \<open>Errors\<close>

text \<open>
  C7. When the entries before \<open>n\<close> were added without error and adding \<open>n\<close> fails, the loop
  returns that very error and the context as the failing call left it, whatever entries
  follow; so do \<^verbatim>\<open>addDir\<close> and, one level up, \<^verbatim>\<open>addEntry\<close> of the directory. The archive
  at that point extends the archive at the start: nothing is taken back. Each failing
  step is returned at once: opening an entry, listing a directory, reading a file, the
  seek, building a header, writing a header, copying the content.
\<close>

theorem first_error_aborts_the_walk:
  assumes "addEntries lib ctx dirPath archivePath before isRoot = (None, ctx1)"
    and "\<not> (isRoot \<and> fi_Name (info n) = ''.backing_store'')"
    and "addEntry lib ctx1 (filepath_Join lib [dirPath, fi_Name (info n)])
           (path_Join lib [archivePath, fi_Name (info n)]) n = (Some err, ctx2)"
  shows "addEntries lib ctx dirPath archivePath (before @ n # rest) isRoot = (Some err, ctx2)
    \<and> (readdir_err fl = None \<longrightarrow>
         addDir lib ctx dirPath archivePath (Node fi fl (before @ n # rest) bs) isRoot
           = (Some err, ctx2))
    \<and> (readdir_err fl = None \<and> open_err fl = None \<and> isDirectory fi \<and> \<not> isRoot \<longrightarrow>
         addEntry lib ctx dirPath archivePath (Node fi fl (before @ n # rest) bs)
           = (Some err, ctx2))
    \<and> archive ctx2 = archive ctx @ written ctx ctx2
    \<and> (open_err fl = Some e \<longrightarrow>
         addEntry lib ctx dirPath archivePath (Node fi fl es bs) = (Some e, ctx))
    \<and> (readdir_err fl = Some e \<longrightarrow>
         addDir lib ctx dirPath archivePath (Node fi fl es bs) isRoot = (Some e, ctx))
    \<and> (open_err fl = None \<and> \<not> isDirectory fi \<and> read_err fl = Some e \<longrightarrow>
         addEntry lib ctx dirPath archivePath (Node fi fl es bs) = (Some e, ctx))
    \<and> (read_err fl = None \<and> mapping ctx (hashKeyOf lib bs) = None \<and> seek_err fl = Some e \<longrightarrow>
         addFile lib ctx archivePath fi fl bs = (Some e, ctx))
    \<and> (read_err fl = None \<and> seek_err fl = None \<and> FileInfoHeader lib fi = Inl e \<longrightarrow>
         addFile lib ctx archivePath fi fl bs = (Some e, ctx))
    \<and> (read_err fl = None \<and> mapping ctx (hashKeyOf lib bs) = None \<and> seek_err fl = None \<and>
        FileInfoHeader lib fi = Inr h \<and>
        header_fault lib (archive ctx)
          (h\<lparr>Name := backingPath lib (rootArchivePath ctx) (hashKeyOf lib bs)\<rparr>) = Some e \<longrightarrow>
         addFile lib ctx archivePath fi fl bs = (Some e, ctx))
    \<and> (read_err fl = None \<and> mapping ctx (hashKeyOf lib bs) = None \<and> seek_err fl = None \<and>
        FileInfoHeader lib fi = Inr h \<and>
        header_fault lib (archive ctx)
          (h\<lparr>Name := backingPath lib (rootArchivePath ctx) (hashKeyOf lib bs)\<rparr>) = None \<and>
        copy_fault lib
          (archive ctx @ [Hdr (h\<lparr>Name := backingPath lib (rootArchivePath ctx) (hashKeyOf lib bs)\<rparr>)])
          bs = Some (e, k) \<longrightarrow>
         addFile lib ctx archivePath fi fl bs =
           (Some e, ctx\<lparr>archive := archive ctx @
              [Hdr (h\<lparr>Name := backingPath lib (rootArchivePath ctx) (hashKeyOf lib bs)\<rparr>),
               Body (take k bs)]\<rparr>))
    \<and> (read_err fl = None \<and> mapping ctx (hashKeyOf lib bs) \<noteq> None \<and>
        FileInfoHeader lib fi = Inr h \<and>
        header_fault lib (archive ctx)
          (h\<lparr>Name := archivePath, Typeflag := TypeLink,
             Linkname := backingPath lib (rootArchivePath ctx) (hashKeyOf lib bs), Size := 0\<rparr>)
          = Some e \<longrightarrow>
         addFile lib ctx archivePath fi fl bs = (Some e, ctx))"
proof -
  have loop: "addEntries lib ctx dirPath archivePath (before @ n # rest) isRoot = (Some err, ctx2)"
    using assms by (auto simp: addEntries_append)
  have g1: "grows ctx ctx1"
    using assms(1) by (rule walk_grows(2))
  have g2: "grows ctx1 ctx2"
    using assms(3) by (rule walk_grows(3))
  have "grows ctx ctx2"
    using g1 g2 by (rule grows_trans)
  then have ext: "archive ctx2 = archive ctx @ written ctx ctx2"
    by (simp add: grows_def)
  have rd: "open_err fl = None \<and> \<not> isDirectory fi \<and> read_err fl = Some e \<longrightarrow>
         addEntry lib ctx dirPath archivePath (Node fi fl es bs) = (Some e, ctx)"
    by (simp add: addFile_def)
  have dirs: "(readdir_err fl = None \<longrightarrow>
         addDir lib ctx dirPath archivePath (Node fi fl (before @ n # rest) bs) isRoot
           = (Some err, ctx2))
    \<and> (readdir_err fl = None \<and> open_err fl = None \<and> isDirectory fi \<and> \<not> isRoot \<longrightarrow>
         addEntry lib ctx dirPath archivePath (Node fi fl (before @ n # rest) bs)
           = (Some err, ctx2))
    \<and> (open_err fl = Some e \<longrightarrow>
         addEntry lib ctx dirPath archivePath (Node fi fl es bs) = (Some e, ctx))
    \<and> (readdir_err fl = Some e \<longrightarrow>
         addDir lib ctx dirPath archivePath (Node fi fl es bs) isRoot = (Some e, ctx))"
    using loop by auto
  have sk: "read_err fl = None \<and> mapping ctx (hashKeyOf lib bs) = None \<and> seek_err fl = Some e \<longrightarrow>
         addFile lib ctx archivePath fi fl bs = (Some e, ctx)"
    by (simp add: addFile_def addBackingFile_def)
  have fih: "read_err fl = None \<and> seek_err fl = None \<and> FileInfoHeader lib fi = Inl e \<longrightarrow>
         addFile lib ctx archivePath fi fl bs = (Some e, ctx)"
    by (auto simp: addFile_def addBackingFile_def Let_def)
  have bh: "read_err fl = None \<and> mapping ctx (hashKeyOf lib bs) = None \<and> seek_err fl = None \<and>
        FileInfoHeader lib fi = Inr h \<and>
        header_fault lib (archive ctx)
          (h\<lparr>Name := backingPath lib (rootArchivePath ctx) (hashKeyOf lib bs)\<rparr>) = Some e \<longrightarrow>
         addFile lib ctx archivePath fi fl bs = (Some e, ctx)"
    by (simp add: addFile_def addBackingFile_def WriteHeader_def)
  have cp: "read_err fl = None \<and> mapping ctx (hashKeyOf lib bs) = None \<and> seek_err fl = None \<and>
        FileInfoHeader lib fi = Inr h \<and>
        header_fault lib (archive ctx)
          (h\<lparr>Name := backingPath lib (rootArchivePath ctx) (hashKeyOf lib bs)\<rparr>) = None \<and>
        copy_fault lib
          (archive ctx @ [Hdr (h\<lparr>Name := backingPath lib (rootArchivePath ctx) (hashKeyOf lib bs)\<rparr>)])
          bs = Some (e, k) \<longrightarrow>
         addFile lib ctx archivePath fi fl bs =
           (Some e, ctx\<lparr>archive := archive ctx @
              [Hdr (h\<lparr>Name := backingPath lib (rootArchivePath ctx) (hashKeyOf lib bs)\<rparr>),
               Body (take k bs)]\<rparr>)"
    by (simp add: addFile_def addBackingFile_def WriteHeader_def io_Copy_def)
  have lk: "read_err fl = None \<and> mapping ctx (hashKeyOf lib bs) \<noteq> None \<and>
        FileInfoHeader lib fi = Inr h \<and>
        header_fault lib (archive ctx)
          (h\<lparr>Name := archivePath, Typeflag := TypeLink,
             Linkname := backingPath lib (rootArchivePath ctx) (hashKeyOf lib bs), Size := 0\<rparr>)
          = Some e \<longrightarrow>
         addFile lib ctx archivePath fi fl bs = (Some e, ctx)"
    by (auto simp: addFile_def WriteHeader_def)
  show ?thesis
    using loop dirs ext rd sk fih bh cp lk by (intro conjI) blast+
qed

theorem first_error_aborts_the_walk_witness:
  "addEntries lib0 ctx0 ''/src/root'' ''root'' [regular ''a.txt'' ''hi''] True =
     (None, \<lparr>rootArchivePath = ''root'', archive = take 3 exampleArchive,
              mapping = [''sha-hi'' \<mapsto> True]\<rparr>)
   \<and> \<not> (True \<and> fi_Name (info (directory ''b'' [unreadable ''c.txt''])) = ''.backing_store'')
   \<and> addEntries lib0 ctx0 ''/src/root'' ''root''
        ([regular ''a.txt'' ''hi''] @ directory ''b'' [unreadable ''c.txt'']
           # [regular ''d.txt'' ''bye'']) True =
      (Some (Error ''input/output error''),
       \<lparr>rootArchivePath = ''root'', archive = take 3 exampleArchive,
         mapping = [''sha-hi'' \<mapsto> True]\<rparr>)"
proof -
  have nm: "\<not> (True \<and> fi_Name (info (directory ''b'' [unreadable ''c.txt''])) = ''.backing_store'')"
    by (simp add: directory_def)
  note t = first_error_aborts_the_walk[OF example_broken_prefix nm example_broken_entry]
  show ?thesis
    by (rule conjI[OF example_broken_prefix conjI[OF nm t[THEN conjunct1]]])
qed

subsection \<open>Exit codes\<close>

text \<open>
  C8, as amended. When the command line asks for help, the process prints the usage message
  and exits with status 0. When the flag package refuses a flag, or when the flags parse
  and the positional arguments are not exactly one, it prints the usage message and exits
  with status 2. On one positional argument it exits with status 0, and nothing on the
  error stream, when nothing fails; when resolving or opening the root, the traversal, or
  closing the archive or the output fails, it prints \<^verbatim>\<open>Error: \<close> and the message of that
  error and calls \<^verbatim>\<open>os.Exit(-1)\<close>, which gives status 255. Status 0 arises in no other
  case. The claim as stated, status 2 whenever the positional arguments are not exactly
  one, fails on \<^verbatim>\<open>-h\<close>: see the counterexample below.
\<close>

theorem exit_codes:
  "(flag_Parse env (os_Args1 env) = Help
      \<longrightarrow> exit_code (main lib env) = 0 \<and> stderr (main lib env) = usage env)
   \<and> (flag_Parse env (os_Args1 env) = BadFlag m
      \<longrightarrow> exit_code (main lib env) = 2
        \<and> stderr (main lib env) = m @ [CHR 0x0A] @ usage env)
   \<and> (flag_Parse env (os_Args1 env) = Parsed z args \<and> length args \<noteq> 1
      \<longrightarrow> exit_code (main lib env) = 2
        \<and> stderr (main lib env) =
            ''usage: '' @ snd (filepath_Split env (os_Args0 env)) @ '' [OPTIONS] [FILE]''
              @ [CHR 0x0A] @ flag_Defaults env
        \<and> archived (main lib env) = [])
   \<and> (flag_Parse env (os_Args1 env) = Parsed z [arg] \<and> internalFailure lib env z arg = None
      \<longrightarrow> exit_code (main lib env) = 0 \<and> stderr (main lib env) = [])
   \<and> (flag_Parse env (os_Args1 env) = Parsed z [arg]
        \<and> internalFailure lib env z arg = Some (Error msg)
      \<longrightarrow> exit_code (main lib env) = 255 \<and> exit_code (main lib env) \<noteq> 0
        \<and> stderr (main lib env) = ''Error: '' @ msg @ [CHR 0x0A])
   \<and> (exit_code (main lib env) = 0
      \<longleftrightarrow> flag_Parse env (os_Args1 env) = Help
        \<or> (\<exists>z arg. flag_Parse env (os_Args1 env) = Parsed z [arg]
              \<and> internalFailure lib env z arg = None))"
proof (intro conjI impI)
  assume "flag_Parse env (os_Args1 env) = Help"
  then show "exit_code (main lib env) = 0" and "stderr (main lib env) = usage env"
    by (simp_all add: main_Help)
next
  assume "flag_Parse env (os_Args1 env) = BadFlag m"
  then show "exit_code (main lib env) = 2"
    and "stderr (main lib env) = m @ [CHR 0x0A] @ usage env"
    by (simp_all add: main_BadFlag)
next
  assume "flag_Parse env (os_Args1 env) = Parsed z args \<and> length args \<noteq> 1"
  then have "main lib env = \<lparr>exit_code = 2, stderr = usage env, archived = []\<rparr>"
    by (simp add: main_not_one)
  then show "exit_code (main lib env) = 2"
    and "stderr (main lib env) =
           ''usage: '' @ snd (filepath_Split env (os_Args0 env)) @ '' [OPTIONS] [FILE]''
             @ [CHR 0x0A] @ flag_Defaults env"
    and "archived (main lib env) = []"
    by (simp_all add: usage_def)
next
  assume "flag_Parse env (os_Args1 env) = Parsed z [arg] \<and> internalFailure lib env z arg = None"
  then show "exit_code (main lib env) = 0" and "stderr (main lib env) = []"
    by (simp_all add: main_one)
next
  assume a: "flag_Parse env (os_Args1 env) = Parsed z [arg]
               \<and> internalFailure lib env z arg = Some (Error msg)"
  then show "exit_code (main lib env) = 255" and "stderr (main lib env) = ''Error: '' @ msg @ [CHR 0x0A]"
    by (simp_all add: main_one errorLine_def)
  with a show "exit_code (main lib env) \<noteq> 0"
    by simp
next
  show "exit_code (main lib env) = 0
      \<longleftrightarrow> flag_Parse env (os_Args1 env) = Help
        \<or> (\<exists>z arg. flag_Parse env (os_Args1 env) = Parsed z [arg]
              \<and> internalFailure lib env z arg = None)"
  proof (cases "flag_Parse env (os_Args1 env)")
    case Help
    then show ?thesis by (simp add: main_Help)
  next
    case (BadFlag m')
    then show ?thesis by (simp add: main_BadFlag)
  next
    case (Parsed z' args')
    show ?thesis
    proof (cases "length args' = 1")
      case False
      with Parsed show ?thesis by (auto simp: main_not_one)
    next
      case True
      then obtain a where "args' = [a]"
        by (cases args') auto
      with Parsed have p: "flag_Parse env (os_Args1 env) = Parsed z' [a]" by simp
      show ?thesis
        using main_one(1)[OF p, of lib] p
        by (auto split: option.splits)
    qed
  qed
qed

theorem exit_codes_witness:
  "flag_Parse (env0\<lparr>os_Args1 := []\<rparr>) (os_Args1 (env0\<lparr>os_Args1 := []\<rparr>)) = Parsed False []
   \<and> exit_code (main lib0 (env0\<lparr>os_Args1 := []\<rparr>)) = 2
   \<and> flag_Parse env0 (os_Args1 env0) = Parsed False [''root'']
   \<and> internalFailure lib0 env0 False ''root'' = None
   \<and> exit_code (main lib0 env0) = 0 \<and> stderr (main lib0 env0) = []
   \<and> internalFailure lib0 (env0\<lparr>os_dir := (\<lambda>p. brokenRoot)\<rparr>) False ''root'' =
       Some (Error ''input/output error'')
   \<and> exit_code (main lib0 (env0\<lparr>os_dir := (\<lambda>p. brokenRoot)\<rparr>)) = 255
   \<and> stderr (main lib0 (env0\<lparr>os_dir := (\<lambda>p. brokenRoot)\<rparr>)) =
       ''Error: input/output error'' @ [CHR 0x0A]
   \<and> flag_Parse (env0\<lparr>os_Args1 := [''-x'', ''root'']\<rparr>)
        (os_Args1 (env0\<lparr>os_Args1 := [''-x'', ''root'']\<rparr>)) =
       BadFlag ''flag provided but not defined: -x''
   \<and> exit_code (main lib0 (env0\<lparr>os_Args1 := [''-x'', ''root'']\<rparr>)) = 2"
proof -
  have p0: "flag_Parse (env0\<lparr>os_Args1 := []\<rparr>) (os_Args1 (env0\<lparr>os_Args1 := []\<rparr>))
              = Parsed False []"
    by (simp add: env0_def)
  have n0: "length ([] :: string list) \<noteq> 1"
    by simp
  have p1: "flag_Parse env0 (os_Args1 env0) = Parsed False [''root'']"
    by (simp add: env0_def)
  have p2: "flag_Parse (env0\<lparr>os_dir := (\<lambda>p. brokenRoot)\<rparr>)
              (os_Args1 (env0\<lparr>os_dir := (\<lambda>p. brokenRoot)\<rparr>)) = Parsed False [''root'']"
    by (simp add: env0_def)
  have p3: "flag_Parse (env0\<lparr>os_Args1 := [''-x'', ''root'']\<rparr>)
              (os_Args1 (env0\<lparr>os_Args1 := [''-x'', ''root'']\<rparr>)) =
            BadFlag ''flag provided but not defined: -x''"
    by (simp add: env0_def)
  note u = exit_codes[THEN conjunct2, THEN conjunct2, THEN conjunct1, THEN mp,
             OF conjI[OF p0 n0], of lib0]
  note s = exit_codes[THEN conjunct2, THEN conjunct2, THEN conjunct2, THEN conjunct1, THEN mp,
             OF conjI[OF p1 env0_ok]]
  note f = exit_codes[THEN conjunct2, THEN conjunct2, THEN conjunct2, THEN conjunct2,
             THEN conjunct1, THEN mp, OF conjI[OF p2 env0_broken]]
  note g = exit_codes[THEN conjunct2, THEN conjunct1, THEN mp, OF p3, of lib0]
  have f3: "stderr (main lib0 (env0\<lparr>os_dir := (\<lambda>p. brokenRoot)\<rparr>)) =
       ''Error: input/output error'' @ [CHR 0x0A]"
    using f[THEN conjunct2, THEN conjunct2] by simp
  show ?thesis
    by (rule conjI[OF p0 conjI[OF u[THEN conjunct1] conjI[OF p1 conjI[OF env0_ok
          conjI[OF s[THEN conjunct1] conjI[OF s[THEN conjunct2] conjI[OF env0_broken
          conjI[OF f[THEN conjunct1] conjI[OF f3 conjI[OF p3 g[THEN conjunct1]]]]]]]]]]])
qed

text \<open>
  The command line \<^verbatim>\<open>tarmac -h\<close> has no positional argument; the process prints the usage
  message and exits with status 0, not 2.
\<close>

theorem exit_codes_counterexample:
  "os_Args1 (env0\<lparr>os_Args1 := [''-h'']\<rparr>) = [''-h'']
   \<and> flag_Parse (env0\<lparr>os_Args1 := [''-h'']\<rparr>) [''-h''] = Help
   \<and> exit_code (main lib0 (env0\<lparr>os_Args1 := [''-h'']\<rparr>)) = 0
   \<and> exit_code (main lib0 (env0\<lparr>os_Args1 := [''-h'']\<rparr>)) \<noteq> 2
   \<and> stderr (main lib0 (env0\<lparr>os_Args1 := [''-h'']\<rparr>)) =
       ''usage: tarmac [OPTIONS] [FILE]'' @ [CHR 0x0A]
         @ ''  -compress: compress output using gzip''"
  by (simp add: main_def env0_def exitStatus_def usage_def splitLast_def)

subsection \<open>The table and the blobs\<close>

text \<open>
  C9. For a file entry whose key is not yet in the table, when the seek, the construction of
  the header, the write of the header or the copy of the content fails, \<^verbatim>\<open>addEntry\<close>
  returns an error and the table is as before. When \<^verbatim>\<open>addEntry\<close> does change the table, it
  adds the key of the entry, and what it appended to the archive starts with the blob's
  header and the whole content. So a walk keeps this true of the table: every key in it has
  a stored-blob record named by its backing path whose content hashes to the key.
\<close>

theorem table_marks_only_complete_blobs:
  "(\<not> isDirectory fi \<and> mapping ctx (hashKeyOf lib bs) = None \<and> blobStepFails lib ctx fi fl bs
      \<longrightarrow> fst (addEntry lib ctx entryPath archivePath (Node fi fl es bs)) \<noteq> None
        \<and> mapping (snd (addEntry lib ctx entryPath archivePath (Node fi fl es bs))) = mapping ctx)
   \<and> (\<not> isDirectory fi
        \<and> mapping (snd (addEntry lib ctx entryPath archivePath (Node fi fl es bs))) \<noteq> mapping ctx
      \<longrightarrow> (\<exists>h. FileInfoHeader lib fi = Inr h
            \<and> mapping (snd (addEntry lib ctx entryPath archivePath (Node fi fl es bs)))
                = (mapping ctx)(hashKeyOf lib bs \<mapsto> True)
            \<and> take 2 (written ctx (snd (addEntry lib ctx entryPath archivePath (Node fi fl es bs))))
                = [Hdr (h\<lparr>Name := backingPath lib (rootArchivePath ctx) (hashKeyOf lib bs)\<rparr>),
                   Body bs]))
   \<and> (blobsComplete lib ctx
      \<longrightarrow> blobsComplete lib (snd (addDir lib ctx dirPath archivePath dir isRoot)))"
proof (intro conjI impI)
  assume a: "\<not> isDirectory fi \<and> mapping ctx (hashKeyOf lib bs) = None
              \<and> blobStepFails lib ctx fi fl bs"
  then have "fst (addFile lib ctx archivePath fi fl bs) \<noteq> None
           \<and> mapping (snd (addFile lib ctx archivePath fi fl bs)) = mapping ctx"
    by (auto simp: addFile_def addBackingFile_def WriteHeader_def io_Copy_def Let_def
                   blobStepFails_def
             split: option.splits sum.splits prod.splits)
  with a show "fst (addEntry lib ctx entryPath archivePath (Node fi fl es bs)) \<noteq> None"
    and "mapping (snd (addEntry lib ctx entryPath archivePath (Node fi fl es bs))) = mapping ctx"
    by (auto split: option.splits)
next
  assume a: "\<not> isDirectory fi
        \<and> mapping (snd (addEntry lib ctx entryPath archivePath (Node fi fl es bs))) \<noteq> mapping ctx"
  obtain r c' where e: "addEntry lib ctx entryPath archivePath (Node fi fl es bs) = (r, c')"
    by (cases "addEntry lib ctx entryPath archivePath (Node fi fl es bs)")
  with a have m: "mapping c' \<noteq> mapping ctx" and f: "addFile lib ctx archivePath fi fl bs = (r, c')"
    by (auto split: option.splits)
  from addFile_outcome[OF f] m obtain h ds where "FileInfoHeader lib fi = Inr h"
    "mapping c' = (mapping ctx)(hashKeyOf lib bs \<mapsto> True)"
    "archive c' = archive ctx @
               Hdr (h\<lparr>Name := backingPath lib (rootArchivePath ctx) (hashKeyOf lib bs)\<rparr>)
               # Body bs # ds"
    by blast
  then show "\<exists>h. FileInfoHeader lib fi = Inr h
            \<and> mapping (snd (addEntry lib ctx entryPath archivePath (Node fi fl es bs)))
                = (mapping ctx)(hashKeyOf lib bs \<mapsto> True)
            \<and> take 2 (written ctx (snd (addEntry lib ctx entryPath archivePath (Node fi fl es bs))))
                = [Hdr (h\<lparr>Name := backingPath lib (rootArchivePath ctx) (hashKeyOf lib bs)\<rparr>),
                   Body bs]"
    unfolding e by (simp add: written_def)
next
  assume "blobsComplete lib ctx"
  then show "blobsComplete lib (snd (addDir lib ctx dirPath archivePath dir isRoot))"
    using walk_complete[OF surjective_pairing] by blast
qed

theorem table_marks_only_complete_blobs_witness:
  "\<not> isDirectory \<lparr>fi_Name = ''a.txt'', fi_Size = 2, fi_Mode = 420, fi_ModTime = 0\<rparr>
   \<and> mapping ctx0 (hashKeyOf libFull ''hi'') = None
   \<and> blobStepFails libFull ctx0
        \<lparr>fi_Name = ''a.txt'', fi_Size = 2, fi_Mode = 420, fi_ModTime = 0\<rparr> noFaults ''hi''
   \<and> fst (addEntry libFull ctx0 ''/src/root/a.txt'' ''root/a.txt''
        (Node \<lparr>fi_Name = ''a.txt'', fi_Size = 2, fi_Mode = 420, fi_ModTime = 0\<rparr>
           noFaults [] ''hi'')) \<noteq> None
   \<and> mapping (snd (addEntry libFull ctx0 ''/src/root/a.txt'' ''root/a.txt''
        (Node \<lparr>fi_Name = ''a.txt'', fi_Size = 2, fi_Mode = 420, fi_ModTime = 0\<rparr>
           noFaults [] ''hi''))) = mapping ctx0
   \<and> archive (snd (addEntry libFull ctx0 ''/src/root/a.txt'' ''root/a.txt''
        (Node \<lparr>fi_Name = ''a.txt'', fi_Size = 2, fi_Mode = 420, fi_ModTime = 0\<rparr>
           noFaults [] ''hi''))) =
       [Hdr \<lparr>Typeflag = CHR ''0'', Name = ''root/.backing_store/sha-hi'', Linkname = [],
             Size = 2, Mode = 420, ModTime = 0\<rparr>,
        Body ''h'']"
proof -
  let ?fi = "\<lparr>fi_Name = ''a.txt'', fi_Size = 2, fi_Mode = 420, fi_ModTime = 0\<rparr>"
  have d: "\<not> isDirectory ?fi"
    by (simp add: isDirectory_def ModeDir_def ModeSymlink_def)
  have k: "mapping ctx0 (hashKeyOf libFull ''hi'') = None"
    by (simp add: ctx0_def)
  have b: "blobStepFails libFull ctx0 ?fi noFaults ''hi''"
    by (simp add: blobStepFails_def libFull_def lib0_def plainHeader_def noFaults_def Let_def)
  note t = table_marks_only_complete_blobs[THEN conjunct1, THEN mp, OF conjI[OF d conjI[OF k b]],
             of "''/src/root/a.txt''" "''root/a.txt''" "[]"]
  have a: "archive (snd (addEntry libFull ctx0 ''/src/root/a.txt'' ''root/a.txt''
             (Node ?fi noFaults [] ''hi''))) =
       [Hdr \<lparr>Typeflag = CHR ''0'', Name = ''root/.backing_store/sha-hi'', Linkname = [],
             Size = 2, Mode = 420, ModTime = 0\<rparr>,
        Body ''h'']"
    using d
    by (simp add: libFull_def lib0_def noFaults_def addFile_def addBackingFile_def
        WriteHeader_def io_Copy_def ctx0_def hashKeyOf_def backingPath_def plainHeader_def Let_def)
  show ?thesis
    by (rule conjI[OF d conjI[OF k conjI[OF b conjI[OF t[THEN conjunct1]
          conjI[OF t[THEN conjunct2] a]]]]])
qed

subsection \<open>Empty files\<close>

text \<open>
  C10. Every file without content has the key of the empty input. On a run that completes,
  at most one stored-blob record has an empty body, it is named by the backing path of
  that key, and, when no other content of the tree is filed under that path, the link
  records that point at it are as many as the empty files.
\<close>

theorem empty_files_share_one_blob:
  assumes run: "addDir lib ctx dirPath archivePath dir isRoot = (None, ctx')"
    and noClash: "\<forall>f \<in> set (walkDir lib archivePath dir isRoot).
        backingPath lib (rootArchivePath ctx) (keyOf lib f)
          = backingPath lib (rootArchivePath ctx) (hashKeyOf lib []) \<longrightarrow> snd (snd f) = []"
  shows "(\<forall>f \<in> set (walkDir lib archivePath dir isRoot).
            snd (snd f) = [] \<longrightarrow> keyOf lib f = base64_URLEncode lib (sha512_Sum lib []))
    \<and> length (filter (\<lambda>r. snd r = []) (stored_blobs (written ctx ctx'))) \<le> 1
    \<and> (\<forall>r \<in> set (stored_blobs (written ctx ctx')).
          snd r = [] \<longrightarrow>
          Name (fst r) = path_Join lib [rootArchivePath ctx, ''.backing_store'', hashKeyOf lib []])
    \<and> length (filter (\<lambda>h. Linkname h =
                 path_Join lib [rootArchivePath ctx, ''.backing_store'', hashKeyOf lib []])
               (link_records (written ctx ctx')))
        = length (filter (\<lambda>f. snd (snd f) = []) (walkDir lib archivePath dir isRoot))"
proof -
  let ?fs = "walkDir lib archivePath dir isRoot"
  let ?P = "path_Join lib [rootArchivePath ctx, ''.backing_store'', hashKeyOf lib []]"
  from walk_ok(1)[of lib ctx dirPath archivePath dir isRoot] run
  have ext: "extends lib ctx ?fs ctx'" by simp
  then have ok: "headersOk lib ?fs" by (simp add: extends_def)
  note w = extends_written(1)[OF ext]
  have P: "?P = backingPath lib (rootArchivePath ctx) (hashKeyOf lib [])"
    by (simp add: backingPath_def)
  have a: "\<forall>f \<in> set ?fs. snd (snd f) = [] \<longrightarrow> keyOf lib f = base64_URLEncode lib (sha512_Sum lib [])"
    by (simp add: keyOf_def hashKeyOf_def)
  have b: "length (filter (\<lambda>r. snd r = []) (stored_blobs (written ctx ctx'))) \<le> 1"
    unfolding w by (rule empty_blobs_le_one[OF ok])
  have c: "\<forall>r \<in> set (stored_blobs (written ctx ctx')). snd r = [] \<longrightarrow> Name (fst r) = ?P"
    using blob_name_of_body[OF ok, of "rootArchivePath ctx" "mapping ctx"]
    unfolding w P by (auto simp: list_all_iff)
  have same: "(backingPath lib (rootArchivePath ctx) (keyOf lib f) = ?P) = (snd (snd f) = [])"
    if "f \<in> set ?fs" for f
    using noClash that unfolding P by (auto simp: keyOf_def)
  have "length (filter (\<lambda>h. Linkname h = ?P) (link_records (written ctx ctx')))
        = length (filter (\<lambda>p. p = ?P) (map Linkname (link_records (written ctx ctx'))))"
    by (simp add: filter_map comp_def)
  also have "\<dots> = length (filter (\<lambda>p. p = ?P)
                      (map (\<lambda>f. backingPath lib (rootArchivePath ctx) (keyOf lib f)) ?fs))"
    by (simp only: w link_records_emit[OF ok] link_targets[OF ok])
  also have "\<dots> = length (filter (\<lambda>f. backingPath lib (rootArchivePath ctx) (keyOf lib f) = ?P) ?fs)"
    by (simp add: filter_map comp_def)
  also have "\<dots> = length (filter (\<lambda>f. snd (snd f) = []) ?fs)"
    using same by (intro arg_cong[where f = length] filter_cong) simp_all
  finally have d: "length (filter (\<lambda>h. Linkname h = ?P) (link_records (written ctx ctx')))
        = length (filter (\<lambda>f. snd (snd f) = []) ?fs)" .
  show ?thesis
    by (intro conjI) (fact a, fact b, fact c, fact d)
qed

theorem empty_files_share_one_blob_witness:
  "addDir lib0 ctx0 ''/src/root'' ''root'' emptiesRoot True = (None, emptiesDone)
   \<and> length (filter (\<lambda>h. Linkname h = ''root/.backing_store/sha-'')
               (link_records (written ctx0 emptiesDone))) = 2
   \<and> length (filter (\<lambda>r. snd r = []) (stored_blobs (written ctx0 emptiesDone))) \<le> 1"
proof -
  have nc: "\<forall>f \<in> set (walkDir lib0 ''root'' emptiesRoot True).
        backingPath lib0 (rootArchivePath ctx0) (keyOf lib0 f)
          = backingPath lib0 (rootArchivePath ctx0) (hashKeyOf lib0 []) \<longrightarrow> snd (snd f) = []"
    unfolding empties_walk
    by (simp add: backingPath_def keyOf_def hashKeyOf_def lib0_def ctx0_def)
  note t = empty_files_share_one_blob[OF empties_run nc]
  have p: "path_Join lib0 [rootArchivePath ctx0, ''.backing_store'', hashKeyOf lib0 []]
             = ''root/.backing_store/sha-''"
    by (simp add: lib0_def ctx0_def hashKeyOf_def)
  have n: "length (filter (\<lambda>f. snd (snd f) = []) (walkDir lib0 ''root'' emptiesRoot True)) = 2"
    unfolding empties_walk by simp
  have l: "length (filter (\<lambda>h. Linkname h = ''root/.backing_store/sha-'')
               (link_records (written ctx0 emptiesDone))) = 2"
    using t[THEN conjunct2, THEN conjunct2, THEN conjunct2] unfolding p n .
  show ?thesis
    by (rule conjI[OF empties_run conjI[OF l t[THEN conjunct2, THEN conjunct1]]])
qed

end
